theory Spec2Isabelle
  imports Main "HOL-Library.Sublist" "HOL-Library.Multiset"
begin

section \<open>Python values, exceptions and strings\<close>

text \<open>
  The values the client handles dynamically: the settings dictionary and the parsed JSON
  bodies of the remote API. A \<open>PDict\<close> lists the items of a dictionary in insertion
  order; its keys are strings (JSON objects) and are meant to be distinct. JSON floats
  are left out: no operation of the client reads one.
\<close>

datatype pyval =
    PNone
  | PBool bool
  | PInt int
  | PStr string
  | PList "pyval list"
  | PDict "(string \<times> pyval) list"

text \<open>Exceptions carry what \<open>str(ex)\<close> needs.\<close>

datatype exn =
    Exception string
  | KeyError string
  | TypeError string
  | AttributeError string
  | IndexError string
  | JSONDecodeError string
  | RequestException string

fun str_exn :: "exn \<Rightarrow> string" where
  "str_exn (Exception m) = m"
| "str_exn (KeyError k) = [CHR 0x27] @ k @ [CHR 0x27]"
| "str_exn (TypeError m) = m"
| "str_exn (AttributeError m) = m"
| "str_exn (IndexError m) = m"
| "str_exn (JSONDecodeError m) = m"
| "str_exn (RequestException m) = m"

fun type_name :: "pyval \<Rightarrow> string" where
  "type_name PNone = ''NoneType''"
| "type_name (PBool _) = ''bool''"
| "type_name (PInt _) = ''int''"
| "type_name (PStr _) = ''str''"
| "type_name (PList _) = ''list''"
| "type_name (PDict _) = ''dict''"

text \<open>\<open>value[key]\<close> with a string key.\<close>

fun getitem :: "pyval \<Rightarrow> string \<Rightarrow> exn + pyval" where
  "getitem (PDict kvs) k = (case map_of kvs k of None \<Rightarrow> Inl (KeyError k) | Some v \<Rightarrow> Inr v)"
| "getitem (PList _) k = Inl (TypeError ''list indices must be integers or slices, not str'')"
| "getitem (PStr _) k = Inl (TypeError ''string indices must be integers, not str'')"
| "getitem v k = Inl (TypeError ([CHR 0x27] @ type_name v @ [CHR 0x27] @ '' object is not subscriptable''))"

text \<open>\<open>'literal' + value\<close>: only a string can be appended to a string.\<close>

fun concat_str :: "string \<Rightarrow> pyval \<Rightarrow> exn + string" where
  "concat_str a (PStr b) = Inr (a @ b)"
| "concat_str a v =
     Inl (TypeError (''can only concatenate str (not '' @ [CHR 0x22] @ type_name v @ [CHR 0x22] @ '') to str''))"

text \<open>\<open>sep.join(xs)\<close>.\<close>

fun join :: "string \<Rightarrow> string list \<Rightarrow> string" where
  "join sep [] = []"
| "join sep [x] = x"
| "join sep (x # y # ys) = x @ sep @ join sep (y # ys)"

text \<open>\<open>s.lstrip("/").rstrip("/")\<close>, \<open>s.replace("\\", "/")\<close> and \<open>s.split("/")[-1]\<close>.\<close>

definition strip_slashes :: "string \<Rightarrow> string" where
  "strip_slashes s = rev (dropWhile (\<lambda>c. c = CHR ''/'') (rev (dropWhile (\<lambda>c. c = CHR ''/'') s)))"

definition replace_backslash :: "string \<Rightarrow> string" where
  "replace_backslash s = map (\<lambda>c. if c = CHR 0x5C then CHR ''/'' else c) s"

definition last_segment :: "string \<Rightarrow> string" where
  "last_segment s = rev (takeWhile (\<lambda>c. c \<noteq> CHR ''/'') (rev s))"

section \<open>The client object and its environment\<close>

type_synonym hdrs = "(string \<times> string) list"

datatype request =
    Get string hdrs
  | Post string "(string \<times> pyval) list"
  | PostJson string hdrs pyval
  | Patch string hdrs pyval
  | Put string hdrs string

text \<open>
  What a request comes back with: \<open>Failed m\<close> when \<open>requests\<close> raises (with
  \<open>str(ex) = m\<close>), else the status code and the body as \<open>json.loads\<close> reads it
  (\<open>None\<close> when the text is not JSON).
\<close>

datatype reply = Failed string | Reply int "pyval option"

text \<open>A thread started by Upload or Download, with the arguments it was given.\<close>

datatype worker =
    UploadIntern string string hdrs bool
  | DownloadIntern string pyval string hdrs bool

text \<open>
  The fields of \<open>OneDrive\<close>, as \<open>__init__\<close> declares them. An \<open>int\<close> field holds
  the number a Python \<open>int\<close> or \<open>bool\<close> stands for (\<open>True\<close> is 1). \<open>token\<close> and
  \<open>refresh_token\<close> hold whatever the auth endpoint sent. \<open>threads\<close> is empty
  whenever the main thread is outside a batch, so it is not a field here; the last three
  fields are the history of the run: the requests the main thread has issued, the number
  of clock readings, and the batches of threads started.
\<close>

record onedrive =
  max_threads :: int
  refresh_token :: pyval
  url :: string
  auth_url :: string
  client_id :: string
  permissions :: "pyval list"
  redirect_uri :: string
  scope :: string
  refresh_interval :: int
  number_retry_connection :: int
  token :: pyval
  last_updated :: int
  headers :: hdrs
  errors :: "string list"
  is_connected :: bool
  sent :: "request list"
  reads :: nat
  launched :: "worker list list"

text \<open>
  The environment: \<open>net n\<close> answers the \<open>n\<close>-th request of the main thread,
  \<open>clk n\<close> is the \<open>n\<close>-th clock reading in whole seconds
  (\<open>time.mktime(datetime.today().timetuple())\<close>), \<open>wnet b i\<close> answers the request of
  the \<open>i\<close>-th thread of the \<open>b\<close>-th batch, \<open>isfile\<close> and \<open>writable\<close> are the local
  file system, and \<open>sched b\<close> is the order in which the threads of batch \<open>b\<close> reach
  the error log.
\<close>

record env =
  net :: "nat \<Rightarrow> reply"
  clk :: "nat \<Rightarrow> int"
  wnet :: "nat \<Rightarrow> nat \<Rightarrow> reply"
  isfile :: "string \<Rightarrow> bool"
  writable :: "string \<Rightarrow> bool"
  sched :: "nat \<Rightarrow> string list \<Rightarrow> string list"

definition init :: onedrive where
  "init = \<lparr> max_threads = 0, refresh_token = PStr [], url = [], auth_url = [], client_id = [],
            permissions = [], redirect_uri = [], scope = [], refresh_interval = 0,
            number_retry_connection = 0, token = PStr [], last_updated = 0, headers = [],
            errors = [], is_connected = False, sent = [], reads = 0, launched = [] \<rparr>"

text \<open>A run of a method: the exception raised or the value returned, and the object after it.\<close>

type_synonym 'a prog = "onedrive \<Rightarrow> (exn + 'a) \<times> onedrive"

definition ret :: "'a \<Rightarrow> 'a prog" where
  "ret v s = (Inr v, s)"

definition lift :: "exn + 'a \<Rightarrow> 'a prog" where
  "lift r s = (r, s)"

definition bnd :: "'a prog \<Rightarrow> ('a \<Rightarrow> 'b prog) \<Rightarrow> 'b prog" where
  "bnd m f s = (case m s of (Inl ex, s') \<Rightarrow> (Inl ex, s') | (Inr v, s') \<Rightarrow> f v s')"

definition modify :: "(onedrive \<Rightarrow> onedrive) \<Rightarrow> unit prog" where
  "modify f s = (Inr (), f s)"

text \<open>Issuing a request from the main thread, and reading the clock.\<close>

definition send :: "env \<Rightarrow> request \<Rightarrow> reply prog" where
  "send e r s = (case net e (length (sent s)) of
                   Failed m \<Rightarrow> (Inl (RequestException m), s\<lparr>sent := sent s @ [r]\<rparr>)
                 | rp \<Rightarrow> (Inr rp, s\<lparr>sent := sent s @ [r]\<rparr>))"

definition now :: "env \<Rightarrow> int prog" where
  "now e s = (Inr (clk e (reads s)), s\<lparr>reads := Suc (reads s)\<rparr>)"

text \<open>\<open>json.loads(response.text)\<close>.\<close>

fun json_loads :: "reply \<Rightarrow> exn + pyval" where
  "json_loads (Reply _ (Some v)) = Inr v"
| "json_loads (Reply _ None) = Inl (JSONDecodeError ''Expecting value: line 1 column 1 (char 0)'')"
| "json_loads (Failed m) = Inl (RequestException m)"

text \<open>The decorator \<open>_SaveRequest\<close>.\<close>

definition SaveRequest :: "'a prog \<Rightarrow> 'a prog" where
  "SaveRequest func s =
     (case func s of
        (Inl ex, s') \<Rightarrow>
          if str_exn ex = [] then (Inl (Exception ''Unknown exception. Check internet connection''), s')
          else (Inl ex, s')
      | (Inr v, s') \<Rightarrow> (Inr v, s'))"

section \<open>The error log\<close>

text \<open>
  What \<open>_CheckError\<close> is handed: a \<open>requests\<close> response (of which it reads \<open>ok\<close>,
  false for a status from 400 to 599) or a parsed body (\<open>None\<close> is \<open>Parsed PNone\<close>).
\<close>

datatype checked = Response int | Parsed pyval

text \<open>The loop over the keys of a dictionary in \<open>_CheckError\<close>.\<close>

fun error_keys :: "string list \<Rightarrow> pyval \<Rightarrow> bool \<Rightarrow> string \<Rightarrow> exn + (bool \<times> string)" where
  "error_keys [] response error_occurred error_text = Inr (error_occurred, error_text)"
| "error_keys (key # keys) response error_occurred error_text =
     (if sublist ''error'' key then
        (case getitem response ''error'' of
           Inl ex \<Rightarrow> Inl ex
         | Inr err \<Rightarrow>
             (case getitem err ''code'' of
                Inl ex \<Rightarrow> Inl ex
              | Inr code \<Rightarrow>
                  (case concat_str (error_text @ '' (Code: '') code of
                     Inl ex \<Rightarrow> Inl ex
                   | Inr t \<Rightarrow> error_keys keys response True (t @ '')''))))
      else error_keys keys response error_occurred error_text)"

definition CheckError :: "string \<Rightarrow> checked \<Rightarrow> bool prog" where
  "CheckError error_text response s =
     (case (case response of
              Response status \<Rightarrow> Inr (400 \<le> status \<and> status < 600, error_text)
            | Parsed (PDict kvs) \<Rightarrow> error_keys (map fst kvs) (PDict kvs) False error_text
            | Parsed _ \<Rightarrow> Inr (True, error_text)) of
        Inl ex \<Rightarrow> (Inl ex, s)
      | Inr (error_occurred, text) \<Rightarrow>
          if error_occurred then (Inr True, s\<lparr>errors := errors s @ [text]\<rparr>)
          else (Inr False, s))"

definition FetchErrors :: "string \<Rightarrow> unit prog" where
  "FetchErrors pre s =
     (if length (errors s) \<noteq> 0 then
        (let error_text = join ''. '' (errors s);
             s' = s\<lparr>errors := []\<rparr>;
             error_text = pre @ error_text
         in (Inl (Exception error_text), s'))
      else (Inr (), s))"

text \<open>Recording one message after the other, as \<open>_CheckError\<close> does for a response that is \<open>None\<close>.\<close>

fun record_all :: "string list \<Rightarrow> onedrive \<Rightarrow> onedrive" where
  "record_all [] s = s"
| "record_all (m # ms) s = record_all ms (snd (CheckError m (Parsed PNone) s))"

section \<open>Settings\<close>

datatype pytype = TInt | TStr | TList

text \<open>\<open>isinstance(value, var_type)\<close>; a \<open>bool\<close> is an \<open>int\<close> in Python.\<close>

fun isinstance :: "pyval \<Rightarrow> pytype \<Rightarrow> bool" where
  "isinstance (PInt _) TInt = True"
| "isinstance (PBool _) TInt = True"
| "isinstance (PStr _) TStr = True"
| "isinstance (PList _) TList = True"
| "isinstance _ _ = False"

fun as_int :: "pyval \<Rightarrow> int" where
  "as_int (PInt i) = i"
| "as_int (PBool b) = (if b then 1 else 0)"
| "as_int _ = 0"

fun as_str :: "pyval \<Rightarrow> string" where
  "as_str (PStr s) = s"
| "as_str _ = []"

fun as_list :: "pyval \<Rightarrow> pyval list" where
  "as_list (PList xs) = xs"
| "as_list _ = []"

text \<open>
  \<open>setattr(self, member_var_name, value)\<close>, for the nine member names the client
  passes. The value has passed \<open>isinstance\<close> for the member's type, or is the default.
\<close>

definition setattr :: "string \<Rightarrow> pyval \<Rightarrow> onedrive \<Rightarrow> onedrive" where
  "setattr member_var_name v s =
     (if member_var_name = ''max_threads'' then s\<lparr>max_threads := as_int v\<rparr>
      else if member_var_name = ''refresh_token'' then s\<lparr>refresh_token := v\<rparr>
      else if member_var_name = ''url'' then s\<lparr>url := as_str v\<rparr>
      else if member_var_name = ''auth_url'' then s\<lparr>auth_url := as_str v\<rparr>
      else if member_var_name = ''client_id'' then s\<lparr>client_id := as_str v\<rparr>
      else if member_var_name = ''permissions'' then s\<lparr>permissions := as_list v\<rparr>
      else if member_var_name = ''redirect_uri'' then s\<lparr>redirect_uri := as_str v\<rparr>
      else if member_var_name = ''refresh_interval'' then s\<lparr>refresh_interval := as_int v\<rparr>
      else if member_var_name = ''number_retry_connection'' then s\<lparr>number_retry_connection := as_int v\<rparr>
      else s)"

definition SetsAndChecksVariable ::
  "(string \<rightharpoonup> pyval) \<Rightarrow> string \<Rightarrow> pytype \<Rightarrow> string \<Rightarrow> unit prog" where
  "SetsAndChecksVariable parameters var var_type member_var_name s =
     (case parameters var of
        None \<Rightarrow>
          (Inl (Exception (''The variable '' @ [CHR 0x22] @ var @ [CHR 0x22]
                           @ '' is not given in the settings-json-file.'')), s)
      | Some v \<Rightarrow>
          if isinstance v var_type then (Inr (), setattr member_var_name v s)
          else (Inl (Exception (''The variable '' @ [CHR 0x22] @ var @ [CHR 0x22]
                                @ '' did not match the specified data type'')), s))"

definition SetsAndChecksVariableWithDefaultValue ::
  "(string \<rightharpoonup> pyval) \<Rightarrow> string \<Rightarrow> pyval \<Rightarrow> pytype \<Rightarrow> string \<Rightarrow> unit prog" where
  "SetsAndChecksVariableWithDefaultValue parameters var default_value var_type member_var_name s =
     (case SetsAndChecksVariable parameters var var_type member_var_name s of
        (Inl _, s') \<Rightarrow> (Inr (), setattr member_var_name default_value s')
      | (Inr _, s') \<Rightarrow> (Inr (), s'))"

text \<open>The loop that builds \<open>scope\<close>: a \<open>+\<close> after every permission but the last.\<close>

fun build_scope :: "pyval list \<Rightarrow> unit prog" where
  "build_scope [] s = (Inr (), s)"
| "build_scope (p # ps) s =
     (case concat_str (scope s) p of
        Inl ex \<Rightarrow> (Inl ex, s)
      | Inr t \<Rightarrow> build_scope ps (s\<lparr>scope := (if ps \<noteq> [] then t @ ''+'' else t)\<rparr>))"

text \<open>The body of the \<open>try\<close> statement of \<open>_SetParameters\<close>, and the method.\<close>

definition SetParameters_try :: "(string \<rightharpoonup> pyval) \<Rightarrow> unit prog" where
  "SetParameters_try parameters =
     bnd (SetsAndChecksVariable parameters ''max_threads'' TInt ''max_threads'') (\<lambda>_.
     bnd (SetsAndChecksVariable parameters ''refresh_token'' TStr ''refresh_token'') (\<lambda>_.
     bnd (SetsAndChecksVariable parameters ''browse_url'' TStr ''url'') (\<lambda>_.
     bnd (SetsAndChecksVariable parameters ''auth_url'' TStr ''auth_url'') (\<lambda>_.
     bnd (SetsAndChecksVariable parameters ''client_id'' TStr ''client_id'') (\<lambda>_.
     bnd (SetsAndChecksVariable parameters ''permissions'' TList ''permissions'') (\<lambda>_.
     bnd (SetsAndChecksVariable parameters ''redirect_uri'' TStr ''redirect_uri'') (\<lambda>_.
     bnd (SetsAndChecksVariableWithDefaultValue parameters ''refresh_interval'' (PInt 3600) TInt
            ''refresh_interval'') (\<lambda>_.
     bnd (SetsAndChecksVariableWithDefaultValue parameters ''number_retry_connection'' (PInt 50) TInt
            ''number_retry_connection'') (\<lambda>_.
     bnd (modify (\<lambda>s. s\<lparr>scope := []\<rparr>)) (\<lambda>_.
     (\<lambda>s. build_scope (permissions s) s)))))))))))"

definition SetParameters :: "(string \<rightharpoonup> pyval) \<Rightarrow> unit prog" where
  "SetParameters parameters s =
     (case SetParameters_try parameters s of
        (Inl ex, s') \<Rightarrow> (Inl (Exception (''Could not initialize parameters: '' @ str_exn ex)), s')
      | (Inr _, s') \<Rightarrow> (Inr (), s'))"

text \<open>The settings \<open>_SetParameters\<close> reads without a default, each with the type it checks.\<close>

definition required :: "(string \<times> pytype) list" where
  "required = [(''max_threads'', TInt), (''refresh_token'', TStr), (''browse_url'', TStr),
               (''auth_url'', TStr), (''client_id'', TStr), (''permissions'', TList),
               (''redirect_uri'', TStr)]"

definition well_typed :: "(string \<rightharpoonup> pyval) \<Rightarrow> string \<times> pytype \<Rightarrow> bool" where
  "well_typed parameters kt =
     (case parameters (fst kt) of None \<Rightarrow> False | Some v \<Rightarrow> isinstance v (snd kt))"

section \<open>Token and connection\<close>

fun status_code :: "reply \<Rightarrow> int" where
  "status_code (Reply c _) = c"
| "status_code (Failed _) = 0"

definition RefreshToken :: "env \<Rightarrow> unit prog" where
  "RefreshToken e =
     SaveRequest (\<lambda>s.
       (let data = [(''client_id'', PStr (client_id s)), (''scope'', PList (permissions s)),
                    (''refresh_token'', refresh_token s), (''redirect_uri'', PStr (redirect_uri s)),
                    (''grant_type'', PStr ''refresh_token'')]
        in bnd (send e (Post (auth_url s) data)) (\<lambda>response.
           bnd (lift (json_loads response)) (\<lambda>j.
           bnd (lift (getitem j ''access_token'')) (\<lambda>t.
           bnd (modify (\<lambda>s. s\<lparr>token := t\<rparr>)) (\<lambda>_.
           bnd (lift (json_loads response)) (\<lambda>j.
           bnd (lift (getitem j ''refresh_token'')) (\<lambda>r.
           bnd (modify (\<lambda>s. s\<lparr>refresh_token := r\<rparr>)) (\<lambda>_.
           bnd (now e) (\<lambda>n.
           bnd (modify (\<lambda>s. s\<lparr>last_updated := n\<rparr>)) (\<lambda>_.
           (\<lambda>s. bnd (lift (concat_str ''Bearer '' (token s))) (\<lambda>b.
                modify (\<lambda>s. s\<lparr>headers := [(''Authorization'', b)]\<rparr>)) s))))))))))) s)"

definition Connect :: "env \<Rightarrow> unit prog" where
  "Connect e =
     SaveRequest (
       bnd (RefreshToken e) (\<lambda>_.
       (\<lambda>s. bnd (send e (Get (url s @ ''me/drive/'') (headers s))) (\<lambda>response.
            if status_code response = 200 then modify (\<lambda>s. s\<lparr>is_connected := True\<rparr>)
            else modify (\<lambda>s. s\<lparr>is_connected := False\<rparr>)) s)))"

definition CheckLastHeartbeat :: "env \<Rightarrow> unit prog" where
  "CheckLastHeartbeat e =
     bnd (now e) (\<lambda>n.
     (\<lambda>s. if n - last_updated s > refresh_interval s then RefreshToken e s else (Inr (), s)))"

text \<open>
  A run that may not end: \<open>None\<close> when the method never returns.
\<close>

type_synonym 'a run = "onedrive \<Rightarrow> ((exn + 'a) \<times> onedrive) option"

definition bndo :: "'a run \<Rightarrow> ('a \<Rightarrow> 'b run) \<Rightarrow> 'b run" where
  "bndo m f s =
     (case m s of
        None \<Rightarrow> None
      | Some (Inl ex, s') \<Rightarrow> Some (Inl ex, s')
      | Some (Inr v, s') \<Rightarrow> f v s')"

definition total :: "'a prog \<Rightarrow> 'a run" where
  "total m s = Some (m s)"

definition SaveRequestO :: "'a run \<Rightarrow> 'a run" where
  "SaveRequestO func s =
     (case func s of
        None \<Rightarrow> None
      | Some (Inl ex, s') \<Rightarrow>
          if str_exn ex = [] then Some (Inl (Exception ''Unknown exception. Check internet connection''), s')
          else Some (Inl ex, s')
      | Some (Inr v, s') \<Rightarrow> Some (Inr v, s'))"

text \<open>
  The \<open>while not self.is_connected\<close> loop of \<open>_CheckConnected\<close>; \<open>attempts\<close> is the
  counter before the iteration. \<open>time.sleep\<close> changes nothing the model holds.
\<close>

partial_function (option) connect_loop :: "env \<Rightarrow> int \<Rightarrow> onedrive \<Rightarrow> ((exn + unit) \<times> onedrive) option" where
  "connect_loop e attempts s =
     (if \<not> is_connected s then
        (if attempts + 1 = number_retry_connection s
         then Some (Inl (Exception ''Could not connect to OneDrive''), s)
         else (case Connect e s of
                 (Inl ex, s') \<Rightarrow> Some (Inl ex, s')
               | (Inr _, s') \<Rightarrow> connect_loop e (attempts + 1) s'))
      else Some (Inr (), s))"

declare connect_loop.simps [code]

text \<open>
  \<open>_CheckConnected\<close>. \<open>_CheckRequestsCompleted\<close> returns at once, the list of threads
  being empty.
\<close>

definition CheckConnected :: "env \<Rightarrow> unit run" where
  "CheckConnected e =
     bndo (\<lambda>s. if \<not> is_connected s then connect_loop e 0 s else Some (Inr (), s)) (\<lambda>_.
     total (CheckLastHeartbeat e))"

text \<open>\<open>OneDrive(connection_parameters)\<close>: the object \<open>__init__\<close> leaves, or the exception.\<close>

definition construct :: "env \<Rightarrow> (string \<rightharpoonup> pyval) \<Rightarrow> ((exn + unit) \<times> onedrive) option" where
  "construct e connection_parameters =
     bndo (total (SetParameters connection_parameters)) (\<lambda>_. CheckConnected e) init"

text \<open>\<open>headers\<close> is the bearer header of \<open>token\<close>.\<close>

definition in_sync :: "onedrive \<Rightarrow> bool" where
  "in_sync s = (case token s of PStr t \<Rightarrow> headers s = [(''Authorization'', ''Bearer '' @ t)] | _ \<Rightarrow> False)"

section \<open>Listing a directory\<close>

text \<open>
  A dictionary built by the client, its items in insertion order. Two hashable values are
  the same key when Python finds them equal (\<open>True\<close> and 1 are).
\<close>

type_synonym pydict = "(pyval \<times> pyval) list"

fun key_eq :: "pyval \<Rightarrow> pyval \<Rightarrow> bool" where
  "key_eq (PBool a) (PInt i) = (i = (if a then 1 else 0))"
| "key_eq (PInt i) (PBool a) = (i = (if a then 1 else 0))"
| "key_eq a b = (a = b)"

fun hashable :: "pyval \<Rightarrow> bool" where
  "hashable (PList _) = False"
| "hashable (PDict _) = False"
| "hashable _ = True"

fun dict_get :: "pyval \<Rightarrow> pydict \<Rightarrow> pyval option" where
  "dict_get k [] = None"
| "dict_get k ((k', v) # d) = (if key_eq k' k then Some v else dict_get k d)"

fun dict_set :: "pyval \<Rightarrow> pyval \<Rightarrow> pydict \<Rightarrow> pydict" where
  "dict_set k v [] = [(k, v)]"
| "dict_set k v ((k', v') # d) = (if key_eq k' k then (k', v) # d else (k', v') # dict_set k v d)"

text \<open>\<open>for item in value\<close>: the items a loop over a value visits.\<close>

fun iterate :: "pyval \<Rightarrow> exn + pyval list" where
  "iterate (PList xs) = Inr xs"
| "iterate (PDict kvs) = Inr (map (\<lambda>kv. PStr (fst kv)) kvs)"
| "iterate (PStr cs) = Inr (map (\<lambda>c. PStr [c]) cs)"
| "iterate v = Inl (TypeError ([CHR 0x27] @ type_name v @ [CHR 0x27] @ '' object is not iterable''))"

text \<open>
  The loop of \<open>FetchAllFiles\<close> over \<open>response["value"]\<close>. In
  \<open>results[item["name"]] = item["id"]\<close> the right-hand side is evaluated first.
\<close>

fun collect :: "pyval list \<Rightarrow> pydict \<Rightarrow> pydict \<Rightarrow> exn + (pydict \<times> pydict)" where
  "collect [] results_files results_folder = Inr (results_files, results_folder)"
| "collect (item # items) results_files results_folder =
     (case item of
        PDict kvs \<Rightarrow>
          (case getitem item ''id'' of
             Inl ex \<Rightarrow> Inl ex
           | Inr i \<Rightarrow>
               (case getitem item ''name'' of
                  Inl ex \<Rightarrow> Inl ex
                | Inr n \<Rightarrow>
                    if \<not> hashable n
                    then Inl (TypeError (''unhashable type: '' @ [CHR 0x27] @ type_name n @ [CHR 0x27]))
                    else if ''folder'' \<in> set (map fst kvs)
                    then collect items results_files (dict_set n i results_folder)
                    else collect items (dict_set n i results_files) results_folder))
      | _ \<Rightarrow> Inl (AttributeError ([CHR 0x27] @ type_name item @ [CHR 0x27]
                                   @ '' object has no attribute '' @ [CHR 0x27] @ ''keys'' @ [CHR 0x27])))"

definition FetchAllFiles :: "env \<Rightarrow> string \<Rightarrow> (pydict \<times> pydict) run" where
  "FetchAllFiles e path_onedrive =
     SaveRequestO (
       bndo (CheckConnected e) (\<lambda>_.
       total (\<lambda>s.
         (let path_onedrive = strip_slashes path_onedrive;
              u = url s @ ''me/drive/root:/'' @ path_onedrive @ '':/children''
          in bnd (send e (Get u (headers s))) (\<lambda>rp.
             bnd (lift (json_loads rp)) (\<lambda>response.
             bnd (CheckError (''Could not fetch all files from '' @ path_onedrive) (Parsed response)) (\<lambda>_.
             bnd (FetchErrors []) (\<lambda>_.
             bnd (lift (getitem response ''value'')) (\<lambda>v.
             bnd (lift (iterate v)) (\<lambda>items.
             lift (collect items [] []))))))) s))))"

definition FetchFolderID :: "env \<Rightarrow> string \<Rightarrow> pyval run" where
  "FetchFolderID e path_onedrive =
     SaveRequestO (
       bndo (CheckConnected e) (\<lambda>_.
       total (\<lambda>s.
         (let path_onedrive = strip_slashes path_onedrive;
              u = url s @ ''me/drive/root:/'' @ path_onedrive @ ''/''
          in bnd (send e (Get u (headers s))) (\<lambda>rp.
             bnd (lift (json_loads rp)) (\<lambda>response.
             bnd (CheckError (''Could not fetch the folder ID of '' @ path_onedrive) (Parsed response)) (\<lambda>_.
             bnd (FetchErrors []) (\<lambda>_.
             lift (getitem response ''id''))))) s))))"

section \<open>Batches of threads\<close>

text \<open>
  What a thread does to the object. It calls \<open>_CheckError\<close> at most once; an exception
  that escapes it ends the thread and leaves the object as it was. \<open>rp\<close> is the answer
  to the one request the thread issues. Printing to the console is not modelled, and
  opening an existing file for reading is taken to succeed.
\<close>

fun run_thread :: "env \<Rightarrow> reply \<Rightarrow> worker \<Rightarrow> onedrive \<Rightarrow> onedrive" where
  "run_thread e rp (UploadIntern filename u header log) s =
     (if \<not> isfile e filename
      then snd (CheckError (''Could not upload '' @ filename @ '': File does not exist'') (Parsed PNone) s)
      else (case json_loads rp of
              Inl _ \<Rightarrow> s
            | Inr response \<Rightarrow> snd (CheckError (''Could not upload '' @ filename) (Parsed response) s)))"
| "run_thread e rp (DownloadIntern path_local filename u header log) s =
     (case rp of
        Failed _ \<Rightarrow> s
      | Reply status _ \<Rightarrow>
          (case concat_str ''Could not download '' filename of
             Inl _ \<Rightarrow> s
           | Inr error_message \<Rightarrow>
               (case CheckError error_message (Response status) s of
                  (Inr True, s') \<Rightarrow> s'
                | (_, s') \<Rightarrow>
                    if writable e (path_local @ ''/'' @ as_str filename) then s'
                    else snd (CheckError (''Could not write '' @ path_local @ '' to drive'') (Parsed PNone) s'))))"

text \<open>The messages the threads of batch \<open>b\<close> record, in the order the threads were started.\<close>

definition thread_messages :: "env \<Rightarrow> nat \<Rightarrow> worker list \<Rightarrow> onedrive \<Rightarrow> string list" where
  "thread_messages e b ws s =
     concat (map (\<lambda>iw. errors (run_thread e (wnet e b (fst iw)) (snd iw) (s\<lparr>errors := []\<rparr>)))
                 (enumerate 0 ws))"

text \<open>
  Starting the threads \<open>ws\<close> and \<open>_JoinThreads\<close>: when the last thread has ended, the
  log holds their messages in the order \<open>sched\<close> gives.
\<close>

definition JoinThreads :: "env \<Rightarrow> worker list \<Rightarrow> onedrive \<Rightarrow> onedrive" where
  "JoinThreads e ws s =
     (let b = length (launched s)
      in s\<lparr>launched := launched s @ [ws], errors := errors s @ sched e b (thread_messages e b ws s)\<rparr>)"

section \<open>Upload\<close>

definition upload_thread :: "string \<Rightarrow> hdrs \<Rightarrow> string \<Rightarrow> bool \<Rightarrow> string \<Rightarrow> worker" where
  "upload_thread base header path_onedrive log filename =
     (let filename = replace_backslash filename;
          u = base @ ''me/drive/root:'' @ path_onedrive @ last_segment filename @ '':/content''
      in UploadIntern filename u header log)"

text \<open>The \<open>for i in range(number_threads)\<close> loop: the threads it starts, from \<open>index\<close> down.\<close>

fun Upload_threads :: "onedrive \<Rightarrow> string list \<Rightarrow> string \<Rightarrow> bool \<Rightarrow> nat \<Rightarrow> nat \<Rightarrow> worker list" where
  "Upload_threads s filenames path_onedrive log 0 index = []"
| "Upload_threads s filenames path_onedrive log (Suc n) index =
     (let index = index - 1;
          filename = filenames ! index
      in upload_thread (url s) (headers s) path_onedrive log filename
         # Upload_threads s filenames path_onedrive log n index)"

text \<open>
  The \<open>while index > 0\<close> loop. \<open>index\<close> starts at the length of the list and a batch
  never takes more than \<open>index\<close> items, so every \<open>filenames[index]\<close> that is read is
  in range. With \<open>max_threads\<close> at 0 or below, \<open>range(number_threads)\<close> is empty and
  \<open>index\<close> does not decrease.
\<close>

partial_function (option) Upload_loop ::
  "env \<Rightarrow> string list \<Rightarrow> string \<Rightarrow> bool \<Rightarrow> nat \<Rightarrow> onedrive \<Rightarrow> ((exn + unit) \<times> onedrive) option" where
  "Upload_loop e filenames path_onedrive log index s =
     (if index > 0 then
        (let number_threads = (if int index < max_threads s then int index else max_threads s);
             s1 = JoinThreads e (Upload_threads s filenames path_onedrive log (nat number_threads) index) s
         in case FetchErrors ''Could not upload all files: '' s1 of
              (Inl ex, s2) \<Rightarrow> Some (Inl ex, s2)
            | (Inr _, s2) \<Rightarrow>
                Upload_loop e filenames path_onedrive log (nat (int index - number_threads)) s2)
      else Some (Inr (), s))"

declare Upload_loop.simps [code]

definition Upload :: "env \<Rightarrow> string list \<Rightarrow> string \<Rightarrow> bool \<Rightarrow> unit run" where
  "Upload e filenames path_onedrive log =
     SaveRequestO (
       bndo (CheckConnected e) (\<lambda>_ s.
         if path_onedrive = [] then Some (Inl (IndexError ''string index out of range''), s)
         else (let path_onedrive = (if hd path_onedrive \<noteq> CHR ''/'' then ''/'' @ path_onedrive
                                    else path_onedrive);
                   path_onedrive = (if last path_onedrive \<noteq> CHR ''/'' then path_onedrive @ ''/''
                                    else path_onedrive)
               in Upload_loop e filenames path_onedrive log (length filenames) s)))"

section \<open>Download\<close>

definition download_thread :: "string \<Rightarrow> hdrs \<Rightarrow> string \<Rightarrow> bool \<Rightarrow> pydict \<Rightarrow> pyval \<Rightarrow> worker" where
  "download_thread base header path_local log all_files filename =
     DownloadIntern path_local filename
       (base @ ''me/drive/items/'' @ as_str (the (dict_get filename all_files)) @ ''/content'') header log"

text \<open>
  The \<open>for\<close> loop of \<open>Download\<close>: the threads it starts and, when building a URL
  raises, the exception.
\<close>

fun Download_threads ::
  "onedrive \<Rightarrow> string \<Rightarrow> string \<Rightarrow> bool \<Rightarrow> pydict \<Rightarrow> pyval list \<Rightarrow> nat \<Rightarrow> nat \<Rightarrow> worker list \<times> exn option" where
  "Download_threads s path_local specific_file log all_files keys 0 index = ([], None)"
| "Download_threads s path_local specific_file log all_files keys (Suc n) index =
     (let index = index - 1;
          filename = keys ! index
      in if (specific_file \<noteq> [] \<and> PStr specific_file = filename) \<or> specific_file = [] then
           (case dict_get filename all_files of
              None \<Rightarrow> ([], Some (KeyError (as_str filename)))
            | Some file_id \<Rightarrow>
                (case concat_str (url s @ ''me/drive/items/'') file_id of
                   Inl ex \<Rightarrow> ([], Some ex)
                 | Inr u \<Rightarrow>
                     (case Download_threads s path_local specific_file log all_files keys n index of
                        (ws, r) \<Rightarrow>
                          (DownloadIntern path_local filename (u @ ''/content'') (headers s) log # ws, r))))
         else Download_threads s path_local specific_file log all_files keys n index)"

text \<open>
  The \<open>while index > 0\<close> loop of \<open>Download\<close>. When the \<open>for\<close> loop raises, the threads
  already started are never joined; they are taken to run to their end all the same.
\<close>

partial_function (option) Download_loop ::
  "env \<Rightarrow> string \<Rightarrow> string \<Rightarrow> bool \<Rightarrow> pydict \<Rightarrow> pyval list \<Rightarrow> nat \<Rightarrow> onedrive
     \<Rightarrow> ((exn + unit) \<times> onedrive) option" where
  "Download_loop e path_local specific_file log all_files keys index s =
     (if index > 0 then
        (let number_threads = (if int index < max_threads s then int index else max_threads s)
         in case Download_threads s path_local specific_file log all_files keys (nat number_threads) index of
              (ws, Some ex) \<Rightarrow> Some (Inl ex, JoinThreads e ws s)
            | (ws, None) \<Rightarrow>
                (case FetchErrors ''Could not download all files: '' (JoinThreads e ws s) of
                   (Inl ex, s2) \<Rightarrow> Some (Inl ex, s2)
                 | (Inr _, s2) \<Rightarrow>
                     Download_loop e path_local specific_file log all_files keys
                       (nat (int index - number_threads)) s2))
      else Some (Inr (), s))"

declare Download_loop.simps [code]

text \<open>\<open>Download\<close>; creating the local directory is taken to succeed.\<close>

definition Download :: "env \<Rightarrow> string \<Rightarrow> string \<Rightarrow> string \<Rightarrow> bool \<Rightarrow> unit run" where
  "Download e path_onedrive path_local specific_file log =
     SaveRequestO (
       bndo (CheckConnected e) (\<lambda>_.
       bndo (FetchAllFiles e (strip_slashes path_onedrive)) (\<lambda>fetched.
         (let all_files = fst fetched;
              keys = map fst all_files
          in Download_loop e path_local specific_file log all_files keys (length keys)))))"

section \<open>Moving a file\<close>

text \<open>
  The \<open>for filename in files_ids\<close> loop of \<open>MoveFile\<close>: the first name equal to
  \<open>arg_filename\<close> is moved and the method returns.
\<close>

fun move_loop :: "env \<Rightarrow> string \<Rightarrow> string \<Rightarrow> pydict \<Rightarrow> pyval \<Rightarrow> pyval list \<Rightarrow> unit prog" where
  "move_loop e src_path_onedrive arg_filename files_ids dest_path_id [] s = (Inr (), s)"
| "move_loop e src_path_onedrive arg_filename files_ids dest_path_id (filename # rest) s =
     (if filename = PStr arg_filename then
        (case dict_get filename files_ids of
           None \<Rightarrow> (Inl (KeyError (as_str filename)), s)
         | Some file_id \<Rightarrow>
             (case concat_str (url s @ ''me/drive/items/'') file_id of
                Inl ex \<Rightarrow> (Inl ex, s)
              | Inr u \<Rightarrow>
                  (let body = PDict [(''parentReference'', PDict [(''id'', dest_path_id)])]
                   in bnd (send e (Patch u (headers s) body)) (\<lambda>rp.
                      bnd (lift (json_loads rp)) (\<lambda>response.
                      bnd (CheckError (''Could not move file '' @ src_path_onedrive) (Parsed response)) (\<lambda>_.
                      FetchErrors []))) s)))
      else move_loop e src_path_onedrive arg_filename files_ids dest_path_id rest s)"

definition MoveFile :: "env \<Rightarrow> string \<Rightarrow> string \<Rightarrow> string \<Rightarrow> unit run" where
  "MoveFile e dest_path_onedrive src_path_onedrive arg_filename =
     SaveRequestO (
       bndo (CheckConnected e) (\<lambda>_.
       bndo (FetchAllFiles e (strip_slashes src_path_onedrive)) (\<lambda>fetched.
       bndo (FetchFolderID e (strip_slashes dest_path_onedrive)) (\<lambda>dest_path_id.
       total (move_loop e (strip_slashes src_path_onedrive) arg_filename (fst fetched) dest_path_id
                (map fst (fst fetched)))))))"

section \<open>Creating a directory, moving a directory\<close>

definition MakeDir :: "env \<Rightarrow> string \<Rightarrow> string \<Rightarrow> unit run" where
  "MakeDir e path_onedrive new_folder_name =
     SaveRequestO (
       bndo (CheckConnected e) (\<lambda>_.
       total (\<lambda>s.
         (let path_onedrive = strip_slashes path_onedrive;
              u = url s @ ''me/drive/root:/'' @ path_onedrive @ '':/children'';
              body = PDict [(''name'', PStr new_folder_name), (''folder'', PDict []),
                            (''@microsoft.graph.conflictBehavior'', PStr ''fail'')]
          in bnd (send e (PostJson u (headers s) body)) (\<lambda>rp.
             bnd (lift (json_loads rp)) (\<lambda>response.
             bnd (CheckError (''Could not create the directory '' @ new_folder_name) (Parsed response)) (\<lambda>_.
             FetchErrors [])))) s)))"

definition MoveAllFiles :: "env \<Rightarrow> string \<Rightarrow> string \<Rightarrow> unit run" where
  "MoveAllFiles e dest_path_onedrive src_path_onedrive =
     SaveRequestO (
       bndo (CheckConnected e) (\<lambda>_.
       bndo (FetchFolderID e (strip_slashes src_path_onedrive)) (\<lambda>src_path_id.
       bndo (FetchFolderID e (strip_slashes dest_path_onedrive)) (\<lambda>dest_path_id.
       total (\<lambda>s.
         (case concat_str (url s @ ''me/drive/items/'') src_path_id of
            Inl ex \<Rightarrow> (Inl ex, s)
          | Inr u \<Rightarrow>
              (let body = PDict [(''parentReference'', PDict [(''id'', dest_path_id)])]
               in bnd (send e (Patch u (headers s) body)) (\<lambda>rp.
                  bnd (lift (json_loads rp)) (\<lambda>response.
                  bnd (CheckError (''Could not move all files from '' @ strip_slashes src_path_onedrive)
                         (Parsed response)) (\<lambda>_.
                  FetchErrors []))) s)))))))"

section \<open>Notions the properties are stated with\<close>

text \<open>The request \<open>_RefreshToken\<close> posts to the auth endpoint.\<close>

definition auth_request :: "onedrive \<Rightarrow> request" where
  "auth_request s =
     Post (auth_url s)
       [(''client_id'', PStr (client_id s)), (''scope'', PList (permissions s)),
        (''refresh_token'', refresh_token s), (''redirect_uri'', PStr (redirect_uri s)),
        (''grant_type'', PStr ''refresh_token'')]"

text \<open>The four fields a refresh replaces.\<close>

definition session :: "onedrive \<Rightarrow> pyval \<times> pyval \<times> hdrs \<times> int" where
  "session s = (token s, refresh_token s, headers s, last_updated s)"

text \<open>
  An environment for examples: the main thread's requests are answered from a list (and
  fail once it is used up), the clock stands at \<open>t\<close>, no local file exists and the
  threads reach the log in the order they were started.
\<close>

definition scripted :: "reply list \<Rightarrow> int \<Rightarrow> env" where
  "scripted rs t =
     \<lparr> net = (\<lambda>n. if n < length rs then rs ! n else Failed ''offline''), clk = (\<lambda>_. t),
       wnet = (\<lambda>_ _. Failed ''offline''), isfile = (\<lambda>_. False), writable = (\<lambda>_. False),
       sched = (\<lambda>_ xs. xs) \<rparr>"

definition tokens :: reply where
  "tokens = Reply 200 (Some (PDict [(''access_token'', PStr ''A''), (''refresh_token'', PStr ''R'')]))"

text \<open>A connected session in which a token has been issued before.\<close>

definition old_session :: onedrive where
  "old_session = init\<lparr>token := PStr ''T'', refresh_token := PStr ''Q'',
       headers := [(''Authorization'', ''Bearer T'')], last_updated := 1, is_connected := True\<rparr>"

text \<open>A settings dictionary with the seven settings that have no default.\<close>

definition example_settings :: "(string \<times> pyval) list" where
  "example_settings =
     [(''max_threads'', PInt 2), (''refresh_token'', PStr ''Q''), (''browse_url'', PStr ''u/''),
      (''auth_url'', PStr ''a''), (''client_id'', PStr ''c''),
      (''permissions'', PList [PStr ''p1'', PStr ''p2'']), (''redirect_uri'', PStr ''r'')]"

text \<open>What the handling of the settings leaves as it is.\<close>

definition kept :: "onedrive \<Rightarrow> onedrive \<Rightarrow> bool" where
  "kept s s' = (is_connected s' = is_connected s \<and> sent s' = sent s
   \<and> reads s' = reads s \<and> token s' = token s
   \<and> headers s' = headers s \<and> errors s' = errors s
   \<and> launched s' = launched s)"

text \<open>A list cut into pieces of \<open>n\<close> items, the last one shorter when \<open>n\<close> does not divide the length.\<close>

function chunks :: "nat \<Rightarrow> 'a list \<Rightarrow> 'a list list" where
  "chunks n xs = (if n = 0 \<or> xs = [] then [] else take n xs # chunks n (drop n xs))"
  by pat_completeness auto
termination
  by (relation "measure (\<lambda>(n, xs). length xs)") auto

declare chunks.simps [simp del]

text \<open>
  Batches run one after the other: start the threads of a batch, join them, drain the
  log, and stop at the first batch whose drain raises.
\<close>

fun run_chunks :: "env \<Rightarrow> string \<Rightarrow> worker list list \<Rightarrow> onedrive \<Rightarrow> (exn + unit) \<times> onedrive" where
  "run_chunks e pre [] s = (Inr (), s)"
| "run_chunks e pre (ws # wss) s =
     (case FetchErrors pre (JoinThreads e ws s) of
        (Inl ex, s') \<Rightarrow> (Inl ex, s')
      | (Inr _, s') \<Rightarrow> run_chunks e pre wss s')"

text \<open>
  An environment for examples of transfers: the main thread's requests are answered
  from \<open>rs\<close>, the local files \<open>present\<close> exist, every local path is writable or none
  is, the threads are answered by \<open>w\<close> and reach the log in the order they were
  started in. The clock stands at 0.
\<close>

definition files_env :: "reply list \<Rightarrow> string list \<Rightarrow> bool \<Rightarrow> (nat \<Rightarrow> nat \<Rightarrow> reply) \<Rightarrow> env" where
  "files_env rs present can_write w =
     \<lparr> net = (\<lambda>n. if n < length rs then rs ! n else Failed ''offline''), clk = (\<lambda>_. 0), wnet = w,
       isfile = (\<lambda>f. f \<in> set present), writable = (\<lambda>_. can_write), sched = (\<lambda>_ xs. xs) \<rparr>"

text \<open>The messages thread \<open>i\<close> of batch \<open>b\<close> records: the log it leaves when it starts from an empty one.\<close>

definition thread_records :: "env \<Rightarrow> nat \<Rightarrow> nat \<Rightarrow> worker \<Rightarrow> string list" where
  "thread_records e b i w = errors (run_thread e (wnet e b i) w init)"

text \<open>
  The name that identifies the item a thread transfers: the base name of the local
  file for an upload, the name of the remote file for a download.
\<close>

fun item_name :: "worker \<Rightarrow> string" where
  "item_name (UploadIntern filename _ _ _) = last_segment filename"
| "item_name (DownloadIntern _ filename _ _ _) = as_str filename"

text \<open>The input list from its tail to its head, cut into batches of \<open>max_threads\<close> threads.\<close>

definition upload_batches :: "onedrive \<Rightarrow> string list \<Rightarrow> string \<Rightarrow> bool \<Rightarrow> worker list list" where
  "upload_batches s filenames path_onedrive log =
     chunks (nat (max_threads s))
       (map (upload_thread (url s) (headers s) path_onedrive log) (rev filenames))"

text \<open>The remote path as \<open>Upload\<close> completes it: a slash in front and one at the end.\<close>

definition upload_path :: "string \<Rightarrow> string" where
  "upload_path path_onedrive =
     (let path_onedrive = (if hd path_onedrive \<noteq> CHR ''/'' then ''/'' @ path_onedrive
                           else path_onedrive)
      in if last path_onedrive \<noteq> CHR ''/'' then path_onedrive @ ''/'' else path_onedrive)"

text \<open>The test \<open>Download\<close> applies to a name before it starts a thread for it.\<close>

definition selected :: "string \<Rightarrow> pyval \<Rightarrow> bool" where
  "selected specific_file filename =
     ((specific_file \<noteq> [] \<and> PStr specific_file = filename) \<or> specific_file = [])"

text \<open>
  The names of a listing from the last to the first, cut into pieces of \<open>max_threads\<close>
  names, with the threads of the selected names of each piece.
\<close>

definition download_batches :: "onedrive \<Rightarrow> string \<Rightarrow> string \<Rightarrow> bool \<Rightarrow> pydict \<Rightarrow> worker list list" where
  "download_batches s path_local specific_file log all_files =
     map (\<lambda>piece. map (download_thread (url s) (headers s) path_local log all_files)
                      (filter (selected specific_file) piece))
         (chunks (nat (max_threads s)) (rev (map fst all_files)))"

text \<open>A listing in which every id is a string.\<close>

fun is_str :: "pyval \<Rightarrow> bool" where
  "is_str (PStr _) = True"
| "is_str _ = False"

definition str_ids :: "pydict \<Rightarrow> bool" where
  "str_ids all_files = list_all (\<lambda>kv. is_str (snd kv)) all_files"

text \<open>
  A reply of the auth endpoint after which \<open>_RefreshToken\<close> raises with the new token
  stored: it holds \<open>access_token\<close> and lacks \<open>refresh_token\<close>, or its \<open>access_token\<close>
  is not a string. \<open>torn\<close>: the last request the main thread issued was a token
  exchange answered so.
\<close>

fun torn_reply :: "reply \<Rightarrow> bool" where
  "torn_reply (Reply _ (Some (PDict kvs))) =
     (case map_of kvs ''access_token'' of
        None \<Rightarrow> False
      | Some t \<Rightarrow> map_of kvs ''refresh_token'' = None \<or> \<not> is_str t)"
| "torn_reply _ = False"

fun is_post :: "request \<Rightarrow> bool" where
  "is_post (Post _ _) = True"
| "is_post _ = False"

definition torn :: "env \<Rightarrow> onedrive \<Rightarrow> bool" where
  "torn e s = (sent s \<noteq> [] \<and> is_post (last (sent s)) \<and> torn_reply (net e (length (sent s) - 1)))"

text \<open>
  The outcome of an operation leaves the header in step with the token, or the
  operation raised out of such a refresh. A run that never returns has no outcome.
\<close>

definition safe :: "env \<Rightarrow> (exn + 'a) \<times> onedrive \<Rightarrow> bool" where
  "safe e outcome = (in_sync (snd outcome) \<or> (isl (fst outcome) \<and> torn e (snd outcome)))"

definition safe_run :: "env \<Rightarrow> ((exn + 'a) \<times> onedrive) option \<Rightarrow> bool" where
  "safe_run e x = (case x of None \<Rightarrow> True | Some outcome \<Rightarrow> safe e outcome)"

text \<open>No thread of the batches \<open>wss\<close>, run after the batches \<open>s\<close> has seen, records a message.\<close>

definition quiet :: "env \<Rightarrow> onedrive \<Rightarrow> worker list list \<Rightarrow> bool" where
  "quiet e s wss =
     (\<forall>j < length wss. thread_messages e (length (launched s) + j) (wss ! j) s = [])"

text \<open>Replies, a connected client with two threads and a listing, for examples.\<close>

definition denied :: reply where
  "denied = Reply 403 (Some (PDict [(''error'', PDict [(''code'', PStr ''accessDenied'')])]))"

definition accepted :: reply where
  "accepted = Reply 200 (Some (PDict [(''id'', PStr ''1'')]))"

definition two_threads :: onedrive where
  "two_threads = init\<lparr>max_threads := 2, url := ''u/'', is_connected := True\<rparr>"

definition listing :: pydict where
  "listing = [(PStr ''a'', PStr ''1''), (PStr ''b'', PStr ''2''), (PStr ''c'', PStr ''3'')]"

text \<open>
  What \<open>MoveFile\<close> does before its loop: the connection check, the listing of the
  source directory and the lookup of the destination folder, giving the files listed
  and the folder's id.
\<close>

definition MoveFile_lookups :: "env \<Rightarrow> string \<Rightarrow> string \<Rightarrow> (pydict \<times> pyval) run" where
  "MoveFile_lookups e dest_path_onedrive src_path_onedrive =
     bndo (CheckConnected e) (\<lambda>_.
     bndo (FetchAllFiles e (strip_slashes src_path_onedrive)) (\<lambda>fetched.
     bndo (FetchFolderID e (strip_slashes dest_path_onedrive)) (\<lambda>dest_path_id.
     total (ret (fst fetched, dest_path_id)))))"

text \<open>The move requests among the requests issued.\<close>

fun is_patch :: "request \<Rightarrow> bool" where
  "is_patch (Patch _ _ _) = True"
| "is_patch _ = False"

definition patches :: "onedrive \<Rightarrow> request list" where
  "patches s = filter is_patch (sent s)"

text \<open>Replies of the remote: a listing of one file, a missing item, a folder.\<close>

definition found :: "string \<Rightarrow> reply" where
  "found name = Reply 200 (Some (PDict [(''value'', PList [PDict [(''name'', PStr name), (''id'', PStr ''7'')]])]))"

definition not_found :: reply where
  "not_found = Reply 404 (Some (PDict [(''error'', PDict [(''code'', PStr ''itemNotFound'')])]))"

definition folder :: reply where
  "folder = Reply 200 (Some (PDict [(''id'', PStr ''9''), (''folder'', PDict [])]))"

text \<open>A listing of three files, and one of two files in which the first id is a number.\<close>

definition three_files :: reply where
  "three_files = Reply 200 (Some (PDict [(''value'', PList
     [PDict [(''name'', PStr ''a''), (''id'', PStr ''1'')],
      PDict [(''name'', PStr ''b''), (''id'', PStr ''2'')],
      PDict [(''name'', PStr ''c''), (''id'', PStr ''3'')]])]))"

definition numbered :: reply where
  "numbered = Reply 200 (Some (PDict [(''value'', PList
     [PDict [(''name'', PStr ''a''), (''id'', PInt 1)],
      PDict [(''name'', PStr ''c''), (''id'', PStr ''3'')]])]))"

section \<open>Properties of the error log\<close>

lemma join_length:
  "length (join sep ms) = sum_list (map length ms) + length sep * (length ms - 1)"
  by (induction sep ms rule: join.induct) simp_all

lemma join_sublist: "m \<in> set ms \<Longrightarrow> sublist m (join sep ms)"
proof (induction sep ms rule: join.induct)
  case (1 sep)
  then show ?case by simp
next
  case (2 sep x)
  then show ?case by simp
next
  case (3 sep x y ys)
  show ?case
  proof (cases "m = x")
    case True
    then show ?thesis by (simp add: sublist_append)
  next
    case False
    with 3 have "sublist m (join sep (y # ys))" by simp
    then show ?thesis by (simp add: sublist_append)
  qed
qed

lemma record_all_errors: "errors (record_all ms s) = errors s @ ms"
  by (induction ms arbitrary: s) (simp_all add: CheckError_def)

lemma record_all_rest:
  "record_all ms s = s\<lparr>errors := errors s @ ms\<rparr>"
  by (induction ms arbitrary: s) (simp_all add: CheckError_def)

text \<open>
  C4. Draining a log that holds \<open>m1..mN\<close> (\<open>N \<ge> 1\<close>) raises one exception whose message
  is the prefix followed by the messages joined by \<open>". "\<close>, every message in it and its
  length the sum of theirs and of the separators; the log is empty afterwards and nothing
  else has changed. Draining an empty log returns normally and changes nothing, so a
  drain repeated at once is a no-op. The log that \<open>N\<close> recordings leave is the
  \<open>N\<close> messages in the order they reached it.
\<close>

theorem FetchErrors_drains:
  "(errors s \<noteq> [] \<longrightarrow>
      FetchErrors pre s = (Inl (Exception (pre @ join ''. '' (errors s))), s\<lparr>errors := []\<rparr>)
      \<and> (\<forall>m \<in> set (errors s). sublist m (pre @ join ''. '' (errors s)))
      \<and> length (pre @ join ''. '' (errors s)) =
          length pre + sum_list (map length (errors s)) + 2 * (length (errors s) - 1))
   \<and> (errors s = [] \<longrightarrow> FetchErrors pre s = (Inr (), s))
   \<and> FetchErrors pre2 (snd (FetchErrors pre s)) = (Inr (), snd (FetchErrors pre s))
   \<and> errors (record_all ms (s\<lparr>errors := []\<rparr>)) = ms"
proof -
  have a: "\<forall>m \<in> set (errors s). sublist m (pre @ join ''. '' (errors s))"
    using join_sublist [of _ "errors s" "''. ''"] by (simp add: sublist_append)
  have b: "length (pre @ join ''. '' (errors s)) =
          length pre + sum_list (map length (errors s)) + 2 * (length (errors s) - 1)"
    by (simp add: join_length)
  have c: "FetchErrors pre2 (snd (FetchErrors pre s)) = (Inr (), snd (FetchErrors pre s))"
    by (simp add: FetchErrors_def Let_def)
  have d: "errors (record_all ms (s\<lparr>errors := []\<rparr>)) = ms"
    by (simp add: record_all_errors)
  show ?thesis using a b c d by (simp add: FetchErrors_def Let_def)
qed

theorem FetchErrors_drains_witness:
  "FetchErrors ''Could not upload all files: '' (record_all [''a'', ''b''] init) =
     (Inl (Exception ''Could not upload all files: a. b''), init)
   \<and> FetchErrors ''x'' init = (Inr (), init)"
  using FetchErrors_drains [of "record_all [''a'', ''b''] init" "''Could not upload all files: ''" "''x''" "[]"]
    FetchErrors_drains [of init "''x''" "''x''" "[]"]
  by (simp add: record_all_rest init_def)

section \<open>Properties of the token refresh\<close>

lemma RefreshToken_dict:
  assumes "net e (length (sent s)) = Reply c (Some (PDict kvs))"
  shows "RefreshToken e s =
    (let s0 = s\<lparr>sent := sent s @ [auth_request s]\<rparr> in
     case map_of kvs ''access_token'' of
       None \<Rightarrow> (Inl (KeyError ''access_token''), s0)
     | Some t \<Rightarrow>
        (case map_of kvs ''refresh_token'' of
           None \<Rightarrow> (Inl (KeyError ''refresh_token''), s0\<lparr>token := t\<rparr>)
         | Some r \<Rightarrow>
            (case concat_str ''Bearer '' t of
               Inl ex \<Rightarrow> (Inl ex, s0\<lparr>token := t, refresh_token := r, reads := Suc (reads s),
                                    last_updated := clk e (reads s)\<rparr>)
             | Inr b \<Rightarrow> (Inr (), s0\<lparr>token := t, refresh_token := r, reads := Suc (reads s),
                                    last_updated := clk e (reads s),
                                    headers := [(''Authorization'', b)]\<rparr>))))"
  using assms
  apply (simp add: RefreshToken_def SaveRequest_def bnd_def send_def lift_def modify_def now_def
      Let_def auth_request_def split: option.splits sum.splits)
  apply (cases "the (map_of kvs ''access_token'')")
       apply (auto split: option.splits sum.splits)
  done

lemma RefreshToken_sent: "sent (snd (RefreshToken e s)) = sent s @ [auth_request s]"
  by (simp add: RefreshToken_def SaveRequest_def bnd_def send_def lift_def modify_def now_def
      Let_def auth_request_def split: option.splits sum.splits reply.splits prod.splits)

lemma RefreshToken_ok:
  assumes "RefreshToken e s = (Inr (), s')"
  shows "in_sync s' \<and> last_updated s' = clk e (reads s) \<and> reads s' = Suc (reads s)
     \<and> refresh_interval s' = refresh_interval s \<and> is_connected s' = is_connected s
     \<and> number_retry_connection s' = number_retry_connection s"
  using assms
  by (auto simp add: RefreshToken_def SaveRequest_def bnd_def send_def lift_def modify_def now_def
      Let_def in_sync_def
      split: option.splits sum.splits reply.splits prod.splits if_splits pyval.splits
      elim!: concat_str.elims)

lemma Connect_propagates:
  "fst (RefreshToken e s) = Inl ex \<Longrightarrow> Connect e s = RefreshToken e s"
  apply (cases "RefreshToken e s")
  apply (auto simp add: Connect_def SaveRequest_def bnd_def split: sum.splits prod.splits)
  apply (auto simp add: RefreshToken_def SaveRequest_def split: sum.splits prod.splits if_splits)
  done

lemma Heartbeat_refreshes:
  "clk e (reads s) - last_updated s > refresh_interval s \<Longrightarrow>
   CheckLastHeartbeat e s = RefreshToken e (s\<lparr>reads := Suc (reads s)\<rparr>)"
  by (simp add: CheckLastHeartbeat_def bnd_def now_def)

lemma Heartbeat_skips:
  "\<not> clk e (reads s) - last_updated s > refresh_interval s \<Longrightarrow>
   CheckLastHeartbeat e s = (Inr (), s\<lparr>reads := Suc (reads s)\<rparr>)"
  by (simp add: CheckLastHeartbeat_def bnd_def now_def)

text \<open>
  C5, as amended. The auth endpoint answers with a JSON object. If it lacks
  \<open>access_token\<close>, \<open>_RefreshToken\<close> raises \<open>KeyError\<close>, the four fields of the session
  are as before, and \<open>_Connect\<close> passes the exception on. If it holds \<open>access_token\<close>
  but lacks \<open>refresh_token\<close>, \<open>_RefreshToken\<close> raises \<open>KeyError\<close>, passed on as well,
  and \<open>refresh_token\<close>, \<open>headers\<close> and \<open>last_updated\<close> are as before. If it holds
  both and \<open>access_token\<close> is a string, \<open>_RefreshToken\<close> returns normally with all four
  fields replaced.
\<close>

theorem RefreshToken_fields:
  assumes "net e (length (sent s)) = Reply c (Some (PDict kvs))"
  shows "(map_of kvs ''access_token'' = None \<longrightarrow>
            fst (RefreshToken e s) = Inl (KeyError ''access_token'')
            \<and> session (snd (RefreshToken e s)) = session s
            \<and> Connect e s = RefreshToken e s)
       \<and> (map_of kvs ''access_token'' \<noteq> None \<and> map_of kvs ''refresh_token'' = None \<longrightarrow>
            fst (RefreshToken e s) = Inl (KeyError ''refresh_token'')
            \<and> refresh_token (snd (RefreshToken e s)) = refresh_token s
            \<and> headers (snd (RefreshToken e s)) = headers s
            \<and> last_updated (snd (RefreshToken e s)) = last_updated s
            \<and> Connect e s = RefreshToken e s)
       \<and> (map_of kvs ''access_token'' = Some (PStr t) \<and> map_of kvs ''refresh_token'' = Some r \<longrightarrow>
            fst (RefreshToken e s) = Inr ()
            \<and> session (snd (RefreshToken e s)) =
                (PStr t, r, [(''Authorization'', ''Bearer '' @ t)], clk e (reads s)))"
proof -
  note d = RefreshToken_dict [OF assms]
  have a: "map_of kvs ''access_token'' = None \<Longrightarrow>
            fst (RefreshToken e s) = Inl (KeyError ''access_token'')
            \<and> session (snd (RefreshToken e s)) = session s"
    by (simp add: d session_def Let_def)
  have b: "map_of kvs ''access_token'' \<noteq> None \<Longrightarrow> map_of kvs ''refresh_token'' = None \<Longrightarrow>
            fst (RefreshToken e s) = Inl (KeyError ''refresh_token'')
            \<and> refresh_token (snd (RefreshToken e s)) = refresh_token s
            \<and> headers (snd (RefreshToken e s)) = headers s
            \<and> last_updated (snd (RefreshToken e s)) = last_updated s"
    by (auto simp add: d Let_def)
  have c: "map_of kvs ''access_token'' = Some (PStr t) \<Longrightarrow> map_of kvs ''refresh_token'' = Some r \<Longrightarrow>
            fst (RefreshToken e s) = Inr ()
            \<and> session (snd (RefreshToken e s)) =
                (PStr t, r, [(''Authorization'', ''Bearer '' @ t)], clk e (reads s))"
    by (simp add: d session_def Let_def)
  show ?thesis using a b c Connect_propagates [of e s] by blast
qed

theorem RefreshToken_fields_witness:
  "session (snd (RefreshToken (scripted [Reply 200 (Some (PDict [(''refresh_token'', PStr ''R'')]))] 5) old_session))
      = session old_session
   \<and> fst (RefreshToken (scripted [Reply 200 (Some (PDict [(''access_token'', PStr ''A'')]))] 5) old_session)
      = Inl (KeyError ''refresh_token'')
   \<and> session (snd (RefreshToken (scripted [tokens] 5) old_session))
      = (PStr ''A'', PStr ''R'', [(''Authorization'', ''Bearer A'')], 5)"
  using RefreshToken_fields [of "scripted [Reply 200 (Some (PDict [(''refresh_token'', PStr ''R'')]))] 5" old_session 200
           "[(''refresh_token'', PStr ''R'')]" "''A''" "PStr ''R''"]
     RefreshToken_fields [of "scripted [Reply 200 (Some (PDict [(''access_token'', PStr ''A'')]))] 5" old_session 200
           "[(''access_token'', PStr ''A'')]" "''A''" "PStr ''R''"]
     RefreshToken_fields [of "scripted [tokens] 5" old_session 200
           "[(''access_token'', PStr ''A''), (''refresh_token'', PStr ''R'')]" "''A''" "PStr ''R''"]
  by (simp add: scripted_def old_session_def init_def tokens_def)

text \<open>
  The claim C5 as stated fails for a response that holds \<open>access_token\<close> but lacks
  \<open>refresh_token\<close>: \<open>_RefreshToken\<close> raises, and the token is the new one.
\<close>

theorem RefreshToken_partial_counterexample:
  "fst (RefreshToken (scripted [Reply 200 (Some (PDict [(''access_token'', PStr ''A'')]))] 5) old_session)
      = Inl (KeyError ''refresh_token'')
   \<and> token old_session = PStr ''T''
   \<and> token (snd (RefreshToken (scripted [Reply 200 (Some (PDict [(''access_token'', PStr ''A'')]))] 5) old_session))
      = PStr ''A''
   \<and> session (snd (RefreshToken (scripted [Reply 200 (Some (PDict [(''access_token'', PStr ''A'')]))] 5) old_session))
      \<noteq> session old_session"
  by (simp add: RefreshToken_dict [of _ _ 200 "[(''access_token'', PStr ''A'')]"] scripted_def old_session_def init_def session_def Let_def)

text \<open>
  The claim C6 as stated fails: the refresh that raises on a response without
  \<open>refresh_token\<close> has stored the new token and left the old header.
\<close>

theorem in_sync_counterexample:
  "in_sync old_session
   \<and> fst (RefreshToken (scripted [Reply 200 (Some (PDict [(''access_token'', PStr ''A'')]))] 5) old_session)
      = Inl (KeyError ''refresh_token'')
   \<and> \<not> in_sync (snd (RefreshToken (scripted [Reply 200 (Some (PDict [(''access_token'', PStr ''A'')]))] 5) old_session))"
  by (simp add: RefreshToken_dict [of _ _ 200 "[(''access_token'', PStr ''A'')]"] scripted_def old_session_def init_def in_sync_def Let_def)

section \<open>The header follows the token\<close>

lemma in_sync_cong: "token s' = token s \<Longrightarrow> headers s' = headers s \<Longrightarrow> in_sync s' = in_sync s"
  by (simp add: in_sync_def split: pyval.splits)

lemma Connect_ok:
  assumes "Connect e s = (Inr (), s')"
  shows "in_sync s' \<and> number_retry_connection s' = number_retry_connection s
         \<and> refresh_interval s' = refresh_interval s"
proof -
  obtain r s1 where r: "RefreshToken e s = (r, s1)" by (cases "RefreshToken e s")
  with assms have r1: "r = Inr ()"
    by (cases r) (auto simp: Connect_def SaveRequest_def bnd_def split: if_splits)
  from RefreshToken_ok [OF r [unfolded r1]] have "in_sync s1" "number_retry_connection s1 = number_retry_connection s"
     "refresh_interval s1 = refresh_interval s" by simp_all
  moreover from assms r r1 have "token s' = token s1 \<and> headers s' = headers s1 \<and> number_retry_connection s' = number_retry_connection s1
     \<and> refresh_interval s' = refresh_interval s1"
    by (auto simp: Connect_def SaveRequest_def bnd_def send_def modify_def split: if_splits reply.splits sum.splits prod.splits)
  ultimately show ?thesis using in_sync_cong [of s' s1] by simp
qed

lemma Heartbeat_in_sync:
  assumes "in_sync s" "CheckLastHeartbeat e s = (Inr (), s')"
  shows "in_sync s'"
proof (cases "clk e (reads s) - last_updated s > refresh_interval s")
  case True
  with assms(2) show ?thesis using RefreshToken_ok [of e "s\<lparr>reads := Suc (reads s)\<rparr>" s']
    by (simp add: Heartbeat_refreshes)
next
  case False
  with assms show ?thesis using in_sync_cong [of s' s] by (auto simp add: Heartbeat_skips)
qed

lemma connect_loop_in_sync:
  assumes "connect_loop e a s = Some y"
  shows "fst y = Inr () \<longrightarrow> (if is_connected s then snd y = s else in_sync (snd y))"
  using assms
proof (induction e a s y rule: connect_loop.raw_induct [rotated 1, consumes 1, case_names step])
  case (step loop e a s y)
  note 1 = step
  show ?case
  proof (cases "is_connected s")
    case True
    with 1(2) show ?thesis by auto
  next
    case False
    show ?thesis
    proof (cases "a + 1 = number_retry_connection s")
      case True
      with False 1(2) show ?thesis by auto
    next
      case ne: False
      obtain r s1 where c: "Connect e s = (r, s1)" by (cases "Connect e s")
      show ?thesis
      proof (cases r)
        case (Inl ex)
        with False ne c 1(2) have "y = (Inl ex, s1)" by simp
        then show ?thesis by simp
      next
        case (Inr u)
        with False ne c 1(2) have rec: "loop e (a + 1) s1 = Some y" by simp
        from c Inr have "in_sync s1" using Connect_ok [of e s s1] by simp
        with 1(1) [OF rec] False show ?thesis by (auto split: if_splits)
      qed
    qed
  qed
qed

lemma CheckConnected_in_sync:
  assumes "CheckConnected e s = Some (Inr (), s')" "in_sync s \<or> \<not> is_connected s"
  shows "in_sync s'"
proof (cases "is_connected s")
  case True
  with assms show ?thesis
    by (auto simp: CheckConnected_def bndo_def total_def dest: Heartbeat_in_sync)
next
  case False
  with assms(1) obtain s1 where l: "connect_loop e 0 s = Some (Inr (), s1)" and h: "CheckLastHeartbeat e s1 = (Inr (), s')"
    by (auto simp: CheckConnected_def bndo_def total_def split: option.splits sum.splits prod.splits)
  from connect_loop_in_sync [OF l] False have "in_sync s1" by simp
  with h show ?thesis by (rule Heartbeat_in_sync [rotated])
qed

section \<open>Properties of the settings\<close>

lemma setattr_keeps:
  "is_connected (setattr n v s) = is_connected s \<and> sent (setattr n v s) = sent s
   \<and> reads (setattr n v s) = reads s \<and> token (setattr n v s) = token s
   \<and> headers (setattr n v s) = headers s \<and> errors (setattr n v s) = errors s
   \<and> launched (setattr n v s) = launched s"
  by (simp add: setattr_def)

lemma kept_trans: "kept s s1 \<Longrightarrow> kept s1 s2 \<Longrightarrow> kept s s2" by (simp add: kept_def)

lemma kept_bnd:
  assumes "\<And>s. kept s (snd (m s))" "\<And>v s. kept s (snd (f v s))"
  shows "kept s (snd (bnd m f s))"
proof (cases "m s")
  case (Pair r s1)
  with assms(1) [of s] have k: "kept s s1" by simp
  show ?thesis
  proof (cases r)
    case (Inl ex)
    with Pair k show ?thesis by (simp add: bnd_def)
  next
    case (Inr v)
    with Pair have "bnd m f s = f v s1" by (simp add: bnd_def)
    with k assms(2) [of s1 v] show ?thesis by (auto intro: kept_trans)
  qed
qed

lemma SetsAndChecksVariable_kept: "kept s (snd (SetsAndChecksVariable ps k ty n s))"
  by (simp add: SetsAndChecksVariable_def kept_def setattr_keeps split: option.splits)

lemma WithDefault_kept: "kept s (snd (SetsAndChecksVariableWithDefaultValue ps k d ty n s))"
  using SetsAndChecksVariable_kept [of s ps k ty n]
  by (auto simp add: SetsAndChecksVariableWithDefaultValue_def kept_def setattr_keeps split: prod.splits sum.splits)

lemma build_scope_kept: "kept s (snd (build_scope ps s))"
proof (induction ps arbitrary: s)
  case Nil
  then show ?case by (simp add: kept_def)
next
  case (Cons p ps)
  show ?case
  proof (cases "concat_str (scope s) p")
    case (Inl ex)
    then show ?thesis by (simp add: kept_def)
  next
    case (Inr t)
    have "kept s (s\<lparr>scope := (if ps \<noteq> [] then t @ ''+'' else t)\<rparr>)" by (simp add: kept_def)
    with Cons [of "s\<lparr>scope := (if ps \<noteq> [] then t @ ''+'' else t)\<rparr>"] Inr show ?thesis
      by (auto intro: kept_trans)
  qed
qed

lemma SetParameters_try_kept: "kept s (snd (SetParameters_try ps s))"
  unfolding SetParameters_try_def
  by (intro kept_bnd SetsAndChecksVariable_kept WithDefault_kept build_scope_kept)
     (simp add: modify_def kept_def)

lemma SetParameters_kept: "kept s (snd (SetParameters ps s))"
  using SetParameters_try_kept [of s ps]
  by (cases "SetParameters_try ps s") (auto simp add: SetParameters_def split: sum.splits)

lemma bnd_check:
  "fst (bnd (SetsAndChecksVariable ps k ty n) f s) = Inr () \<Longrightarrow> well_typed ps (k, ty) \<and>
     fst (f () (snd (SetsAndChecksVariable ps k ty n s))) = Inr ()"
  by (auto simp add: bnd_def SetsAndChecksVariable_def well_typed_def split: option.splits prod.splits sum.splits if_splits)

lemma SetParameters_required:
  assumes "fst (SetParameters ps s) = Inr ()"
  shows "\<forall>kt \<in> set required. well_typed ps kt"
proof -
  from assms have "fst (SetParameters_try ps s) = Inr ()"
    by (cases "SetParameters_try ps s") (auto simp add: SetParameters_def split: sum.splits)
  note a1 = bnd_check [OF this [unfolded SetParameters_try_def]]
  note a2 = bnd_check [OF a1 [THEN conjunct2]]
  note a3 = bnd_check [OF a2 [THEN conjunct2]]
  note a4 = bnd_check [OF a3 [THEN conjunct2]]
  note a5 = bnd_check [OF a4 [THEN conjunct2]]
  note a6 = bnd_check [OF a5 [THEN conjunct2]]
  note a7 = bnd_check [OF a6 [THEN conjunct2]]
  from a1 a2 a3 a4 a5 a6 a7 show ?thesis by (simp add: required_def)
qed

lemma SetParameters_message:
  "fst (SetParameters ps s) \<noteq> Inr () \<Longrightarrow>
   \<exists>m. fst (SetParameters ps s) = Inl (Exception (''Could not initialize parameters: '' @ m))"
  by (cases "SetParameters_try ps s") (auto simp add: SetParameters_def split: sum.splits)

lemma SetsAndChecksVariable_sets:
  "well_typed ps (k, ty) \<Longrightarrow> SetsAndChecksVariable ps k ty n s = (Inr (), setattr n (the (ps k)) s)"
  by (auto simp add: SetsAndChecksVariable_def well_typed_def split: option.splits)

lemma WithDefault_sets:
  "SetsAndChecksVariableWithDefaultValue ps k d ty n s =
     (Inr (), setattr n (if well_typed ps (k, ty) then the (ps k) else d) s)"
  by (auto simp add: SetsAndChecksVariableWithDefaultValue_def SetsAndChecksVariable_def well_typed_def
      split: option.splits)

lemma build_scope_strings:
  "\<forall>p \<in> set ps. isinstance p TStr \<Longrightarrow>
   fst (build_scope ps s) = Inr () \<and> refresh_interval (snd (build_scope ps s)) = refresh_interval s
   \<and> number_retry_connection (snd (build_scope ps s)) = number_retry_connection s"
proof (induction ps arbitrary: s)
  case Nil
  then show ?case by simp
next
  case (Cons p ps)
  then obtain x where p: "p = PStr x" by (cases p) auto
  from Cons show ?case by (simp add: p)
qed

lemma SetParameters_defaults:
  assumes "\<forall>kt \<in> set required. well_typed ps kt"
    and "\<forall>p \<in> set (as_list (the (ps ''permissions''))). isinstance p TStr"
  shows "fst (SetParameters ps s) = Inr ()
     \<and> refresh_interval (snd (SetParameters ps s)) =
         (if well_typed ps (''refresh_interval'', TInt) then as_int (the (ps ''refresh_interval'')) else 3600)
     \<and> number_retry_connection (snd (SetParameters ps s)) =
         (if well_typed ps (''number_retry_connection'', TInt)
          then as_int (the (ps ''number_retry_connection'')) else 50)"
proof -
  define s9 where "s9 =
     (setattr ''number_retry_connection''
        (if well_typed ps (''number_retry_connection'', TInt) then the (ps ''number_retry_connection'') else PInt 50)
     (setattr ''refresh_interval''
        (if well_typed ps (''refresh_interval'', TInt) then the (ps ''refresh_interval'') else PInt 3600)
     (setattr ''redirect_uri'' (the (ps ''redirect_uri''))
     (setattr ''permissions'' (the (ps ''permissions''))
     (setattr ''client_id'' (the (ps ''client_id''))
     (setattr ''auth_url'' (the (ps ''auth_url''))
     (setattr ''url'' (the (ps ''browse_url''))
     (setattr ''refresh_token'' (the (ps ''refresh_token''))
     (setattr ''max_threads'' (the (ps ''max_threads'')) s)))))))))\<lparr>scope := []\<rparr>"
  from assms(1) have "SetParameters_try ps s = build_scope (permissions s9) s9"
    by (simp add: SetParameters_try_def required_def bnd_def SetsAndChecksVariable_sets
        WithDefault_sets modify_def s9_def)
  moreover have "permissions s9 = as_list (the (ps ''permissions''))"
    by (simp add: s9_def setattr_def)
  moreover have "refresh_interval s9 =
         (if well_typed ps (''refresh_interval'', TInt) then as_int (the (ps ''refresh_interval'')) else 3600)"
    "number_retry_connection s9 = (if well_typed ps (''number_retry_connection'', TInt)
          then as_int (the (ps ''number_retry_connection'')) else 50)"
    by (simp_all add: s9_def setattr_def)
  ultimately show ?thesis
    using build_scope_strings [of "permissions s9" s9] assms(2)
    by (cases "build_scope (permissions s9) s9") (auto simp add: SetParameters_def split: sum.splits)
qed

text \<open>
  C9, as amended. If one of the seven settings without a default is missing or fails
  \<open>isinstance\<close>, \<open>__init__\<close> raises "Could not initialize parameters: ..." and has
  issued no request and read no clock. A missing or mistyped \<open>refresh_interval\<close> or
  \<open>number_retry_connection\<close> is replaced by 3600 or 50 and does not make
  \<open>_SetParameters\<close> fail.
\<close>

theorem construct_rejects:
  "((\<exists>kt \<in> set required. \<not> well_typed ps kt) \<longrightarrow>
      (\<exists>m s'. construct e ps = Some (Inl (Exception (''Could not initialize parameters: '' @ m)), s')
          \<and> sent s' = [] \<and> reads s' = 0))
   \<and> ((\<forall>kt \<in> set required. well_typed ps kt)
       \<and> (\<forall>p \<in> set (as_list (the (ps ''permissions''))). isinstance p TStr) \<longrightarrow>
        fst (SetParameters ps init) = Inr ()
        \<and> refresh_interval (snd (SetParameters ps init)) =
           (if well_typed ps (''refresh_interval'', TInt) then as_int (the (ps ''refresh_interval'')) else 3600)
        \<and> number_retry_connection (snd (SetParameters ps init)) =
           (if well_typed ps (''number_retry_connection'', TInt)
            then as_int (the (ps ''number_retry_connection'')) else 50))"
proof -
  have a: "\<exists>m s'. construct e ps = Some (Inl (Exception (''Could not initialize parameters: '' @ m)), s')
          \<and> sent s' = [] \<and> reads s' = 0" if "\<exists>kt \<in> set required. \<not> well_typed ps kt"
  proof -
    from that SetParameters_required [of ps init] have "fst (SetParameters ps init) \<noteq> Inr ()" by blast
    from SetParameters_message [OF this] obtain m where
      m: "fst (SetParameters ps init) = Inl (Exception (''Could not initialize parameters: '' @ m))" ..
    obtain s' where s': "SetParameters ps init = (Inl (Exception (''Could not initialize parameters: '' @ m)), s')"
      using m by (cases "SetParameters ps init") simp
    from SetParameters_kept [of init ps] s' have "sent s' = [] \<and> reads s' = 0"
      by (simp add: kept_def init_def)
    with s' show ?thesis by (simp add: construct_def bndo_def total_def)
  qed
  from a SetParameters_defaults [of ps init] show ?thesis by blast
qed

theorem construct_rejects_witness:
  "map_option fst (construct (scripted [] 0) (map_of (tl example_settings)))
     = Some (Inl (Exception (''Could not initialize parameters: The variable '' @ [CHR 0x22] @ ''max_threads''
          @ [CHR 0x22] @ '' is not given in the settings-json-file.'')))
   \<and> map_option (sent \<circ> snd) (construct (scripted [] 0) (map_of (tl example_settings))) = Some []
   \<and> fst (SetParameters (map_of example_settings) init) = Inr ()
   \<and> refresh_interval (snd (SetParameters (map_of example_settings) init)) = 3600
   \<and> number_retry_connection (snd (SetParameters (map_of example_settings) init)) = 50"
proof -
  have r: "\<exists>kt \<in> set required. \<not> well_typed (map_of (tl example_settings)) kt"
    by (simp add: required_def well_typed_def example_settings_def)
  have w: "\<forall>kt \<in> set required. well_typed (map_of example_settings) kt"
    by (simp add: required_def well_typed_def example_settings_def)
  have p: "\<forall>p \<in> set (as_list (the (map_of example_settings ''permissions''))). isinstance p TStr"
    by (simp add: example_settings_def)
  have d: "\<not> well_typed (map_of example_settings) (''refresh_interval'', TInt)"
     "\<not> well_typed (map_of example_settings) (''number_retry_connection'', TInt)"
    by (simp_all add: well_typed_def example_settings_def)
  have c: "map_option fst (construct (scripted [] 0) (map_of (tl example_settings)))
     = Some (Inl (Exception (''Could not initialize parameters: The variable '' @ [CHR 0x22] @ ''max_threads''
          @ [CHR 0x22] @ '' is not given in the settings-json-file.'')))"
    by (simp add: construct_def bndo_def total_def SetParameters_def SetParameters_try_def bnd_def
         SetsAndChecksVariable_def example_settings_def)
  from construct_rejects [of "map_of (tl example_settings)" "scripted [] 0"] r
  have "map_option (sent \<circ> snd) (construct (scripted [] 0) (map_of (tl example_settings))) = Some []"
    by auto
  with c construct_rejects [of "map_of example_settings" "scripted [] 0"] w p d show ?thesis
    by simp
qed

text \<open>
  The claim C9 as stated fails for a setting that has a default: with
  \<open>refresh_interval\<close> a string, \<open>__init__\<close> takes 3600, goes on to the network and
  returns normally.
\<close>

theorem construct_default_counterexample:
  "map_of (example_settings @ [(''refresh_interval'', PStr ''soon'')]) ''refresh_interval'' = Some (PStr ''soon'')
   \<and> \<not> isinstance (PStr ''soon'') TInt
   \<and> map_option fst (construct (scripted [tokens, Reply 200 None] 5)
        (map_of (example_settings @ [(''refresh_interval'', PStr ''soon'')]))) = Some (Inr ())
   \<and> map_option (length \<circ> sent \<circ> snd) (construct (scripted [tokens, Reply 200 None] 5)
        (map_of (example_settings @ [(''refresh_interval'', PStr ''soon'')]))) = Some 2
   \<and> map_option (refresh_interval \<circ> snd) (construct (scripted [tokens, Reply 200 None] 5)
        (map_of (example_settings @ [(''refresh_interval'', PStr ''soon'')]))) = Some 3600"
  by code_simp

section \<open>Properties of the connection check\<close>

lemma construct_in_sync:
  assumes "construct e ps = Some (Inr (), s')"
  shows "in_sync s'"
proof -
  obtain r s0 where sp: "SetParameters ps init = (r, s0)" by (cases "SetParameters ps init")
  with assms have c: "CheckConnected e s0 = Some (Inr (), s')"
    by (cases r) (auto simp: construct_def bndo_def total_def)
  from SetParameters_kept [of init ps] sp have "\<not> is_connected s0"
    by (simp add: kept_def init_def)
  with c show ?thesis by (auto intro: CheckConnected_in_sync)
qed

text \<open>
  C8, as amended. \<open>_CheckLastHeartbeat\<close> posts to the auth endpoint if and only if
  \<open>now - last_updated > refresh_interval\<close>. With \<open>refresh_interval \<ge> 0\<close>, a second call
  right after a first that returned normally, the clock reading what it last read,
  issues no request: at most one refresh completes.
\<close>

theorem Heartbeat_refresh_iff:
  "sent (snd (CheckLastHeartbeat e s)) =
      (if clk e (reads s) - last_updated s > refresh_interval s then sent s @ [auth_request s] else sent s)
   \<and> (0 \<le> refresh_interval s \<and> CheckLastHeartbeat e s = (Inr (), s1)
        \<and> clk e (reads s1) = clk e (reads s1 - 1) \<longrightarrow>
      CheckLastHeartbeat e s1 = (Inr (), s1\<lparr>reads := Suc (reads s1)\<rparr>))"
proof -
  have a: "sent (snd (CheckLastHeartbeat e s)) =
      (if clk e (reads s) - last_updated s > refresh_interval s then sent s @ [auth_request s] else sent s)"
    using RefreshToken_sent [of e "s\<lparr>reads := Suc (reads s)\<rparr>"]
    by (auto simp add: Heartbeat_refreshes Heartbeat_skips auth_request_def)
  have b: "CheckLastHeartbeat e s1 = (Inr (), s1\<lparr>reads := Suc (reads s1)\<rparr>)"
    if i: "0 \<le> refresh_interval s" and h: "CheckLastHeartbeat e s = (Inr (), s1)"
      and c: "clk e (reads s1) = clk e (reads s1 - 1)"
  proof (cases "clk e (reads s) - last_updated s > refresh_interval s")
    case True
    with h have "RefreshToken e (s\<lparr>reads := Suc (reads s)\<rparr>) = (Inr (), s1)"
      by (simp add: Heartbeat_refreshes)
    from RefreshToken_ok [OF this] c i show ?thesis
      by (simp add: Heartbeat_skips)
  next
    case False
    with h have "s1 = s\<lparr>reads := Suc (reads s)\<rparr>" by (simp add: Heartbeat_skips)
    with False c show ?thesis by (simp add: Heartbeat_skips)
  qed
  from a b show ?thesis by blast
qed

theorem Heartbeat_refresh_iff_witness:
  "sent (snd (CheckLastHeartbeat (scripted [tokens, tokens] 5) (old_session\<lparr>refresh_interval := 3\<rparr>)))
      = [auth_request old_session]
   \<and> sent (snd (CheckLastHeartbeat (scripted [tokens, tokens] 5)
         (snd (CheckLastHeartbeat (scripted [tokens, tokens] 5) (old_session\<lparr>refresh_interval := 3\<rparr>)))))
      = [auth_request old_session]
   \<and> sent (snd (CheckLastHeartbeat (scripted [tokens, tokens] 5) (old_session\<lparr>refresh_interval := 4\<rparr>))) = []"
proof -
  let ?e = "scripted [tokens, tokens] 5"
  let ?s = "old_session\<lparr>refresh_interval := 3\<rparr>"
  obtain s1 where h: "CheckLastHeartbeat ?e ?s = (Inr (), s1)" and r: "reads s1 = 2"
    by (simp add: Heartbeat_refreshes RefreshToken_dict [of _ _ 200 "[(''access_token'', PStr ''A''), (''refresh_token'', PStr ''R'')]"]
        scripted_def tokens_def old_session_def init_def Let_def)
  have c: "clk ?e (reads s1) = clk ?e (reads s1 - 1)" by (simp add: scripted_def)
  have i: "0 \<le> refresh_interval ?s" by simp
  from Heartbeat_refresh_iff [of ?e ?s s1] h c i
  have 1: "sent s1 = [auth_request old_session]" and 2: "CheckLastHeartbeat ?e s1 = (Inr (), s1\<lparr>reads := Suc (reads s1)\<rparr>)"
    by (simp_all add: scripted_def old_session_def init_def auth_request_def)
  from Heartbeat_refresh_iff [of ?e "old_session\<lparr>refresh_interval := 4\<rparr>"]
  have 3: "sent (snd (CheckLastHeartbeat ?e (old_session\<lparr>refresh_interval := 4\<rparr>))) = []"
    by (simp add: scripted_def old_session_def init_def)
  from h 1 2 3 show ?thesis by simp
qed

text \<open>
  The claim C8 as stated fails for a negative \<open>refresh_interval\<close>, which the settings
  accept: both calls refresh, the clock standing still.
\<close>

theorem Heartbeat_negative_interval_counterexample:
  "fst (CheckLastHeartbeat (scripted [tokens, tokens] 5) (old_session\<lparr>refresh_interval := - 1\<rparr>)) = Inr ()
   \<and> fst (CheckLastHeartbeat (scripted [tokens, tokens] 5)
         (snd (CheckLastHeartbeat (scripted [tokens, tokens] 5) (old_session\<lparr>refresh_interval := - 1\<rparr>)))) = Inr ()
   \<and> length (sent (snd (CheckLastHeartbeat (scripted [tokens, tokens] 5)
         (snd (CheckLastHeartbeat (scripted [tokens, tokens] 5) (old_session\<lparr>refresh_interval := - 1\<rparr>)))))) = 2
   \<and> sent (old_session\<lparr>refresh_interval := - 1\<rparr>) = []"
  by code_simp

text \<open>
  C3 at the inputs where the code departs from it. With \<open>number_retry_connection = 1\<close>
  and a remote that would accept the first attempt, \<open>_CheckConnected\<close> raises
  without a single request. With \<open>number_retry_connection = 2\<close> and a probe that
  would succeed on the second attempt, it raises after one refresh and one probe; with
  3 it connects on the second attempt, after four requests.
\<close>

theorem CheckConnected_last_attempt:
  "CheckConnected (scripted [tokens, Reply 200 None] 5) (init\<lparr>number_retry_connection := 1\<rparr>)
     = Some (Inl (Exception ''Could not connect to OneDrive''), init\<lparr>number_retry_connection := 1\<rparr>)
   \<and> map_option fst (CheckConnected (scripted [tokens, Reply 500 None, tokens, Reply 200 None] 5)
        (init\<lparr>number_retry_connection := 2\<rparr>)) = Some (Inl (Exception ''Could not connect to OneDrive''))
   \<and> map_option (length \<circ> sent \<circ> snd) (CheckConnected (scripted [tokens, Reply 500 None, tokens, Reply 200 None] 5)
        (init\<lparr>number_retry_connection := 2\<rparr>)) = Some 2
   \<and> map_option fst (CheckConnected (scripted [tokens, Reply 500 None, tokens, Reply 200 None] 5)
        (init\<lparr>number_retry_connection := 3\<rparr>)) = Some (Inr ())
   \<and> map_option (length \<circ> sent \<circ> snd) (CheckConnected (scripted [tokens, Reply 500 None, tokens, Reply 200 None] 5)
        (init\<lparr>number_retry_connection := 3\<rparr>)) = Some 4"
  by code_simp

section \<open>Properties of the batches\<close>

lemma chunks_Nil [simp]: "chunks n [] = []"
  by (simp add: chunks.simps)

lemma chunks_Cons: "0 < n \<Longrightarrow> xs \<noteq> [] \<Longrightarrow> chunks n xs = take n xs # chunks n (drop n xs)"
  by (subst chunks.simps) simp

lemma ceil_div:
  assumes "0 < (n::nat)"
  shows "(l + n - Suc 0) div n = (if l mod n = 0 then l div n else Suc (l div n))"
proof -
  define d where "d = l div n"
  define r where "r = l mod n"
  have l: "l = d * n + r" and r: "r < n" using assms by (simp_all add: d_def r_def)
  show ?thesis
  proof (cases "r = 0")
    case True
    have "l + n - Suc 0 = d * n + (n - Suc 0)" using l True assms by simp
    also have "\<dots> div n = d + (n - Suc 0) div n" using assms by (subst div_mult_self3) simp_all
    also have "(n - Suc 0) div n = 0" using assms by simp
    finally show ?thesis using True by (simp add: d_def r_def)
  next
    case False
    have "l + n - Suc 0 = (d + 1) * n + (r - Suc 0)" using l False by simp
    also have "\<dots> div n = (d + 1) + (r - Suc 0) div n" using assms by (subst div_mult_self3) simp_all
    also have "(r - Suc 0) div n = 0" using r by simp
    finally show ?thesis using False by (simp add: d_def r_def)
  qed
qed

lemma ceil_step: "0 < n \<Longrightarrow> n \<le> l \<Longrightarrow> (l + n - Suc 0) div n = Suc ((l - Suc 0) div n)"
proof -
  assume a: "0 < n" "n \<le> (l::nat)"
  then have e: "l + n - Suc 0 = 1 * n + (l - Suc 0)" by simp
  show ?thesis unfolding e using a by (subst div_mult_self3) simp_all
qed

lemma ceil_one: "0 < l \<Longrightarrow> l < n \<Longrightarrow> (l + n - Suc 0) div n = Suc 0"
proof -
  assume a: "0 < l" "l < (n::nat)"
  then have e: "l + n - Suc 0 = 1 * n + (l - Suc 0)" by simp
  show ?thesis unfolding e using a by (subst div_mult_self3) simp_all
qed

lemma chunks_length: "0 < n \<Longrightarrow> length (chunks n xs) = (length xs + n - 1) div n"
proof (induction n xs rule: chunks.induct)
  case (1 n xs)
  show ?case
  proof (cases "xs = []")
    case True
    with 1(2) show ?thesis by simp
  next
    case False
    with 1 have ih: "length (chunks n (drop n xs)) = (length xs - n + n - 1) div n" by simp
    show ?thesis
    proof (cases "n \<le> length xs")
      case True
      with ih False 1(2) show ?thesis by (simp add: chunks_Cons ceil_step)
    next
      case f: False
      with False 1(2) show ?thesis by (simp add: chunks_Cons ceil_one)
    qed
  qed
qed

lemma chunks_nth:
  "0 < n \<Longrightarrow> i < length (chunks n xs) \<Longrightarrow> chunks n xs ! i = take n (drop (i * n) xs)"
proof (induction n xs arbitrary: i rule: chunks.induct)
  case (1 n xs)
  from 1(3) have ne: "xs \<noteq> []" by auto
  show ?case
  proof (cases i)
    case 0
    with ne 1(2) show ?thesis by (simp add: chunks_Cons)
  next
    case (Suc j)
    with 1(3) ne 1(2) have "j < length (chunks n (drop n xs))" by (simp add: chunks_Cons)
    with 1(1) [of j] ne 1(2) have "chunks n (drop n xs) ! j = take n (drop (j * n) (drop n xs))" by simp
    with Suc ne 1(2) show ?thesis by (simp add: chunks_Cons ac_simps)
  qed
qed

lemma chunks_concat: "0 < n \<Longrightarrow> concat (chunks n xs) = xs"
proof (induction n xs rule: chunks.induct)
  case (1 n xs)
  then show ?case by (cases "xs = []") (simp_all add: chunks_Cons)
qed

lemma chunks_full:
  assumes "0 < n" "Suc i < length (chunks n xs)"
  shows "length (chunks n xs ! i) = n"
proof -
  from assms have "Suc i < (length xs + n - 1) div n" by (simp add: chunks_length)
  then have "Suc i \<le> length xs div n" using assms(1) by (simp add: ceil_div split: if_splits)
  then have "Suc i * n \<le> length xs div n * n" by (rule mult_le_mono1)
  also have "\<dots> \<le> length xs" by simp
  finally have "i * n + n \<le> length xs" by simp
  with assms show ?thesis by (simp add: chunks_nth)
qed

lemma chunks_last:
  assumes "0 < n" "xs \<noteq> []"
  shows "length (last (chunks n xs)) = (if length xs mod n = 0 then n else length xs mod n)"
proof -
  let ?q = "length (chunks n xs)"
  have q: "?q = (if length xs mod n = 0 then length xs div n else Suc (length xs div n))"
    using assms by (simp add: chunks_length ceil_div)
  have ne: "chunks n xs \<noteq> []" using assms by (simp add: chunks_Cons)
  then have "last (chunks n xs) = chunks n xs ! (?q - 1)" by (simp add: last_conv_nth)
  also have "\<dots> = take n (drop ((?q - 1) * n) xs)" using assms ne by (intro chunks_nth) auto
  finally have l: "length (last (chunks n xs)) = min (length xs - (?q - 1) * n) n" by simp
  show ?thesis
  proof (cases "length xs mod n = 0")
    case True
    then have "length xs = length xs div n * n"
      using div_mult_mod_eq [of "length xs" n] by simp
    then obtain d where d: "length xs = d * n" ..
    with assms have "0 < d" by (cases d) auto
    with d assms True q l show ?thesis by (simp add: diff_mult_distrib)
  next
    case False
    have "length xs - length xs div n * n = length xs mod n"
      by (simp add: minus_div_mult_eq_mod)
    with False q l assms show ?thesis by simp
  qed
qed

lemma Upload_threads_eq:
  "n \<le> index \<Longrightarrow> index \<le> length fs \<Longrightarrow>
   Upload_threads s fs path log n index =
     map (upload_thread (url s) (headers s) path log) (take n (drop (length fs - index) (rev fs)))"
proof (induction n arbitrary: index)
  case 0
  then show ?case by simp
next
  case (Suc n)
  then obtain i where i: "index = Suc i" by (cases index) auto
  have k: "length fs - Suc i < length (rev fs)" using Suc.prems i by simp
  have nth: "rev fs ! (length fs - Suc i) = fs ! i" using Suc.prems i by (simp add: rev_nth)
  have "take (Suc n) (drop (length fs - Suc i) (rev fs)) =
        rev fs ! (length fs - Suc i) # take n (drop (Suc (length fs - Suc i)) (rev fs))"
    using k by (simp add: Cons_nth_drop_Suc [symmetric])
  moreover have "Suc (length fs - Suc i) = length fs - i" using Suc.prems i by simp
  ultimately show ?case using Suc.IH [of i] Suc.prems i nth by (simp add: Let_def)
qed

lemma FetchErrors_fields:
  "FetchErrors pre s = (r, s') \<Longrightarrow>
   max_threads s' = max_threads s \<and> url s' = url s \<and> headers s' = headers s \<and> sent s' = sent s
   \<and> launched s' = launched s \<and> errors s' = []"
  by (auto simp add: FetchErrors_def Let_def split: if_splits)

lemma JoinThreads_fields:
  "max_threads (JoinThreads e ws s) = max_threads s \<and> url (JoinThreads e ws s) = url s
   \<and> headers (JoinThreads e ws s) = headers s \<and> sent (JoinThreads e ws s) = sent s
   \<and> launched (JoinThreads e ws s) = launched s @ [ws]"
  by (simp add: JoinThreads_def Let_def)

lemma Upload_loop_chunks:
  assumes "1 \<le> max_threads s" "index \<le> length fs"
  shows "Upload_loop e fs path log index s =
     Some (run_chunks e ''Could not upload all files: ''
             (chunks (nat (max_threads s))
                (map (upload_thread (url s) (headers s) path log) (drop (length fs - index) (rev fs)))) s)"
  using assms
proof (induction index arbitrary: s rule: less_induct)
  case (less index)
  show ?case
  proof (cases "index = 0")
    case True
    then show ?thesis by (subst Upload_loop.simps) simp
  next
    case False
    define m where "m = nat (max_threads s)"
    define n where "n = nat (if int index < max_threads s then int index else max_threads s)"
    define mk where "mk = upload_thread (url s) (headers s) path log"
    define xs where "xs = map mk (drop (length fs - index) (rev fs))"
    have m: "0 < m" using less.prems by (simp add: m_def)
    have n: "n = min index m" using less.prems by (auto simp add: n_def m_def)
    have lx: "length xs = index" using less.prems by (simp add: xs_def)
    have xne: "xs \<noteq> []" using lx False by auto
    have n1: "0 < n" "n \<le> index" using n m False by auto
    have th: "Upload_threads s fs path log n index = take m xs"
      using Upload_threads_eq [of n index fs s path log] n1 less.prems lx
      by (simp add: xs_def mk_def take_map [symmetric] n min_def)
    define s1 where "s1 = JoinThreads e (take m xs) s"
    have rest: "drop m xs = map mk (drop (length fs - (index - n)) (rev fs))"
    proof (cases "m \<le> index")
      case True
      then have "n = m" using n by simp
      moreover have "m + (length fs - index) = length fs - (index - m)" using True less.prems by simp
      ultimately show ?thesis by (simp add: xs_def drop_map ac_simps)
    next
      case False
      then have "n = index" using n by simp
      then show ?thesis using False lx by (simp add: xs_def)
    qed
    have unfold: "Upload_loop e fs path log index s =
        (case FetchErrors ''Could not upload all files: '' s1 of
              (Inl ex, s2) \<Rightarrow> Some (Inl ex, s2)
            | (Inr _, s2) \<Rightarrow> Upload_loop e fs path log (index - n) s2)"
    proof -
      have nn: "nat (int index - (if int index < max_threads s then int index else max_threads s)) = index - n"
        using less.prems by (cases "int index < max_threads s") (simp_all add: n_def nat_diff_distrib')
      show ?thesis
        using False th by (subst Upload_loop.simps) (simp add: Let_def nn n_def [symmetric] s1_def split del: if_split cong: prod.case_cong sum.case_cong)
    qed
    obtain r s2 where f: "FetchErrors ''Could not upload all files: '' s1 = (r, s2)"
      by (cases "FetchErrors ''Could not upload all files: '' s1")
    have ch: "chunks m xs = take m xs # chunks m (drop m xs)" using m xne by (rule chunks_Cons)
    show ?thesis
    proof (cases r)
      case (Inl ex)
      with f unfold ch show ?thesis
        by (simp add: m_def [symmetric] xs_def [symmetric] mk_def [symmetric] s1_def [symmetric])
    next
      case (Inr u)
      from FetchErrors_fields [OF f] JoinThreads_fields [of e "take m xs" s]
      have k: "max_threads s2 = max_threads s" "url s2 = url s" "headers s2 = headers s"
        by (simp_all add: s1_def)
      have "Upload_loop e fs path log (index - n) s2 =
        Some (run_chunks e ''Could not upload all files: ''
             (chunks (nat (max_threads s2))
                (map (upload_thread (url s2) (headers s2) path log) (drop (length fs - (index - n)) (rev fs)))) s2)"
        using less.prems n1 k by (intro less.IH) auto
      with Inr f unfold ch rest k show ?thesis
        by (simp add: m_def [symmetric] xs_def [symmetric] mk_def [symmetric] s1_def [symmetric])
    qed
  qed
qed

lemma CheckError_indep:
  "fst (CheckError t r s) = fst (CheckError t r s')
   \<and> errors (snd (CheckError t r s)) = errors s @ errors (snd (CheckError t r (s'\<lparr>errors := []\<rparr>)))"
  by (simp add: CheckError_def split: sum.splits prod.splits checked.splits pyval.splits)

lemma run_thread_indep:
  "errors (run_thread e rp w s) = errors s @ errors (run_thread e rp w (s'\<lparr>errors := []\<rparr>))"
proof (cases w)
  case (UploadIntern f u h l)
  show ?thesis
    using CheckError_indep [of _ _ s s']
    by (auto simp add: UploadIntern split: sum.splits)
next
  case (DownloadIntern p f u h l)
  show ?thesis
  proof (cases rp)
    case (Failed m)
    then show ?thesis by (simp add: DownloadIntern)
  next
    case (Reply st body)
    show ?thesis
    proof (cases "concat_str ''Could not download '' f")
      case (Inl ex)
      then show ?thesis by (simp add: DownloadIntern Reply)
    next
      case (Inr t)
      show ?thesis
        by (simp add: DownloadIntern Reply Inr CheckError_def)
    qed
  qed
qed

lemma thread_messages_indep: "thread_messages e b ws s = thread_messages e b ws s'"
  unfolding thread_messages_def
  using run_thread_indep [of e _ _ "s\<lparr>errors := []\<rparr>" s'] by simp

lemma run_chunks_fields:
  "run_chunks e pre wss s = (r, s') \<Longrightarrow>
   max_threads s' = max_threads s \<and> url s' = url s \<and> headers s' = headers s \<and> sent s' = sent s
   \<and> (\<exists>k \<le> length wss. launched s' = launched s @ take k wss
         \<and> (r = Inr () \<longrightarrow> k = length wss) \<and> (wss \<noteq> [] \<longrightarrow> 0 < k))"
proof (induction wss arbitrary: s)
  case Nil
  then show ?case by auto
next
  case (Cons ws wss)
  obtain r1 s1 where f: "FetchErrors pre (JoinThreads e ws s) = (r1, s1)"
    by (cases "FetchErrors pre (JoinThreads e ws s)")
  note k1 = FetchErrors_fields [OF f] JoinThreads_fields [of e ws s]
  show ?case
  proof (cases r1)
    case (Inl ex)
    with f Cons.prems have "r = Inl ex" "s' = s1" by simp_all
    with k1 show ?thesis by (auto intro!: exI [of _ 1])
  next
    case (Inr u)
    with f Cons.prems have "run_chunks e pre wss s1 = (r, s')" by simp
    from Cons.IH [OF this] k1 obtain k where
      "k \<le> length wss" "launched s' = (launched s @ [ws]) @ take k wss" "r = Inr () \<longrightarrow> k = length wss"
      and same: "max_threads s' = max_threads s \<and> url s' = url s \<and> headers s' = headers s \<and> sent s' = sent s"
      by auto
    then show ?thesis using same by (auto intro!: exI [of _ "Suc k"])
  qed
qed

lemma run_chunks_quiet:
  assumes "errors s = []" "quiet e s wss" "\<And>b. sched e b [] = []"
  shows "run_chunks e pre wss s = (Inr (), s\<lparr>launched := launched s @ wss\<rparr>)"
  using assms(1,2)
proof (induction wss arbitrary: s)
  case Nil
  then show ?case by simp
next
  case (Cons ws wss)
  from Cons.prems(2) have q0: "thread_messages e (length (launched s)) ws s = []"
    by (auto simp add: quiet_def)
  define s1 where "s1 = s\<lparr>launched := launched s @ [ws]\<rparr>"
  have j: "JoinThreads e ws s = s1"
    using q0 Cons.prems(1) assms(3) by (simp add: JoinThreads_def Let_def s1_def)
  have f: "FetchErrors pre s1 = (Inr (), s1)"
    using Cons.prems(1) by (simp add: FetchErrors_def s1_def)
  have "quiet e s1 wss"
    unfolding quiet_def
  proof (intro allI impI)
    fix j assume "j < length wss"
    with Cons.prems(2) have "thread_messages e (length (launched s) + Suc j) ((ws # wss) ! Suc j) s = []"
      unfolding quiet_def by (metis Suc_less_eq length_Cons)
    then show "thread_messages e (length (launched s1) + j) (wss ! j) s1 = []"
      using thread_messages_indep [of e _ _ s1 s] by (simp add: s1_def)
  qed
  moreover have "errors s1 = []" using Cons.prems(1) by (simp add: s1_def)
  ultimately have "run_chunks e pre wss s1 = (Inr (), s1\<lparr>launched := launched s1 @ wss\<rparr>)"
    by (rule Cons.IH [rotated])
  with j f show ?case by (simp add: s1_def)
qed

lemma perm_nonempty:
  assumes "\<And>b ms. mset (sched e b ms) = mset ms"
  shows "set (sched e b ms) = set ms" "sched e b [] = []"
proof -
  show "set (sched e b ms) = set ms" using assms [of b ms] by (metis set_mset_mset)
  show "sched e b [] = []" using assms [of b "[]"] by simp
qed

lemma error_keys_prefix:
  "error_keys ks resp occ t = Inr (occ', t') \<Longrightarrow> prefix t t'"
proof (induction ks arbitrary: occ t)
  case Nil
  then show ?case by simp
next
  case (Cons k ks)
  show ?case
  proof (cases "sublist ''error'' k")
    case False
    with Cons show ?thesis by simp
  next
    case True
    with Cons.prems obtain err code t1 where
      "concat_str (t @ '' (Code: '') code = Inr t1"
      "error_keys ks resp True (t1 @ '')'') = Inr (occ', t')"
      by (auto split: sum.splits)
    moreover from this(1) have "prefix t t1"
      by (cases code) auto
    ultimately show ?thesis using Cons.IH [of True "t1 @ '')''"]
      by (meson prefix_order.trans prefixI)
  qed
qed

lemma CheckError_message:
  "m \<in> set (errors (snd (CheckError t r (s\<lparr>errors := []\<rparr>)))) \<Longrightarrow> prefix t m"
  by (auto simp add: CheckError_def split: sum.splits prod.splits checked.splits pyval.splits if_splits
      dest: error_keys_prefix)

lemma last_segment_sublist: "sublist (last_segment f) f"
proof -
  have "suffix (rev (takeWhile (\<lambda>c. c \<noteq> CHR ''/'') (rev f))) (rev (rev f))"
    unfolding suffix_to_prefix rev_rev_ident by (rule takeWhile_is_prefix)
  then show ?thesis by (simp add: last_segment_def)
qed

lemma upload_message_names:
  assumes "m \<in> set (errors (run_thread e rp (UploadIntern f u h l) (s\<lparr>errors := []\<rparr>)))"
  shows "prefix (''Could not upload '' @ f) m"
proof -
  from assms have "prefix (''Could not upload '' @ f @ '': File does not exist'') m
      \<or> prefix (''Could not upload '' @ f) m"
    by (auto split: if_splits sum.splits dest: CheckError_message)
  then show ?thesis
    by (metis append.assoc append_prefixD)
qed

lemma thread_messages_set:
  "set (thread_messages e b ws s) =
     (\<Union>i < length ws. set (errors (run_thread e (wnet e b i) (ws ! i) (s\<lparr>errors := []\<rparr>))))"
  by (auto simp add: thread_messages_def enumerate_eq_zip set_zip)

lemma Upload_threads_kind:
  "w \<in> set (Upload_threads s fs path log n index) \<Longrightarrow> \<exists>f u h l. w = UploadIntern f u h l"
  by (induction n arbitrary: index) (auto simp add: Let_def upload_thread_def)

lemma key_eq_refl: "key_eq k k"
  by (cases k) auto

lemma thread_records_eq:
  "errors (run_thread e (wnet e b i) w (s\<lparr>errors := []\<rparr>)) = thread_records e b i w"
  using run_thread_indep [of e "wnet e b i" w "s\<lparr>errors := []\<rparr>" init]
    run_thread_indep [of e "wnet e b i" w init init]
  by (simp add: thread_records_def init_def)

lemma thread_recorded:
  "i < length ws \<Longrightarrow> m \<in> set (thread_records e b i (ws ! i)) \<Longrightarrow> m \<in> set (thread_messages e b ws s)"
  unfolding thread_messages_set thread_records_eq by blast

lemma Download_threads_kind:
  "w \<in> set (fst (Download_threads s pl sf log af keys n index)) \<Longrightarrow> \<exists>f u h l. w = DownloadIntern pl f u h l"
proof (induction n arbitrary: index w)
  case 0
  then show ?case by simp
next
  case (Suc n)
  obtain x1 x2 where r: "Download_threads s pl sf log af keys n (index - 1) = (x1, x2)"
    by (cases "Download_threads s pl sf log af keys n (index - 1)")
  have ih: "\<And>w. w \<in> set x1 \<Longrightarrow> \<exists>f u h l. w = DownloadIntern pl f u h l"
    using Suc.IH [of _ "index - 1"] r by simp
  from Suc.prems r ih show ?case
    by (auto simp add: Let_def split: option.splits sum.splits if_splits)
qed

lemma download_thread_names:
  assumes "m \<in> set (thread_records e b i (DownloadIntern pl f u h l))"
    and "wnet e b i = Reply st body" "400 \<le> st" "st < 600"
  shows "m = ''Could not download '' @ as_str f"
proof (cases "concat_str ''Could not download '' f")
  case (Inl ex)
  with assms show ?thesis by (simp add: thread_records_def init_def)
next
  case (Inr t)
  then obtain n where "f = PStr n" "t = ''Could not download '' @ n" by (cases f) auto
  with assms show ?thesis by (simp add: thread_records_def init_def CheckError_def)
qed

lemma chunks_sizes:
  assumes "0 < n"
  shows "length (chunks n xs) = (length xs + n - 1) div n
     \<and> (\<forall>j. Suc j < length (chunks n xs) \<longrightarrow> length (chunks n xs ! j) = n)
     \<and> (xs \<noteq> [] \<longrightarrow> length (last (chunks n xs)) = (if length xs mod n = 0 then n else length xs mod n))"
  using assms chunks_length [of n xs] chunks_full [of n _ xs] chunks_last [of n xs] by blast

lemma rev_slice:
  "take m (drop k (rev xs)) = rev (drop (length xs - k - m) (take (length xs - k) xs))"
proof -
  have "take m (drop k (rev xs)) = take m (rev (take (length xs - k) xs))"
    by (simp add: drop_rev)
  also have "\<dots> = rev (drop (length (take (length xs - k) xs) - m) (take (length xs - k) xs))"
    by (rule take_rev)
  also have "length (take (length xs - k) xs) = length xs - k" by simp
  finally show ?thesis .
qed

section \<open>Properties of moving a file\<close>

lemma move_loop_absent:
  "PStr name \<notin> set keys \<Longrightarrow> move_loop e src name files did keys s = (Inr (), s)"
  by (induction keys) auto

lemma bndo_Some:
  "bndo m f s = Some (Inr v, s') \<Longrightarrow> \<exists>u s1. m s = Some (Inr u, s1) \<and> f u s1 = Some (Inr v, s')"
  by (auto simp add: bndo_def split: option.splits sum.splits prod.splits)

lemma MoveFile_absent:
  assumes "MoveFile_lookups e dest src s = Some (Inr (files_ids, dest_id), s1)"
    and "PStr name \<notin> fst ` set files_ids"
  shows "MoveFile e dest src name s = Some (Inr (), s1)"
proof -
  from bndo_Some [OF assms(1) [unfolded MoveFile_lookups_def]] obtain u1 t1 where
    1: "CheckConnected e s = Some (Inr u1, t1)" and
    r1: "bndo (FetchAllFiles e (strip_slashes src)) (\<lambda>fetched.
     bndo (FetchFolderID e (strip_slashes dest)) (\<lambda>dest_path_id.
     total (ret (fst fetched, dest_path_id)))) t1 = Some (Inr (files_ids, dest_id), s1)"
    by blast
  from bndo_Some [OF r1] obtain fetched t2 where
    2: "FetchAllFiles e (strip_slashes src) t1 = Some (Inr fetched, t2)" and
    r2: "bndo (FetchFolderID e (strip_slashes dest)) (\<lambda>dest_path_id.
     total (ret (fst fetched, dest_path_id))) t2 = Some (Inr (files_ids, dest_id), s1)"
    by blast
  from bndo_Some [OF r2] obtain did t3 where
    3: "FetchFolderID e (strip_slashes dest) t2 = Some (Inr did, t3)" and
    r3: "total (ret (fst fetched, did)) t3 = Some (Inr (files_ids, dest_id), s1)"
    by blast
  from r3 have e: "fst fetched = files_ids" "did = dest_id" "t3 = s1"
    by (simp_all add: total_def ret_def)
  from assms(2) have "PStr name \<notin> set (map fst files_ids)" by simp
  from move_loop_absent [OF this] 1 2 3 e show ?thesis
    by (simp add: MoveFile_def SaveRequestO_def bndo_def total_def)
qed

lemma patches_bnd:
  assumes "\<And>s. patches (snd (m s)) = patches s" "\<And>v s. patches (snd (f v s)) = patches s"
  shows "patches (snd (bnd m f s)) = patches s"
proof (cases "m s")
  case (Pair r s1)
  with assms(1) [of s] have k: "patches s1 = patches s" by simp
  show ?thesis
  proof (cases r)
    case (Inl ex)
    with Pair k show ?thesis by (simp add: bnd_def)
  next
    case (Inr v)
    with Pair have "bnd m f s = f v s1" by (simp add: bnd_def)
    with k assms(2) [of v s1] show ?thesis by simp
  qed
qed

lemma patches_SaveRequest:
  "patches (snd (SaveRequest m s)) = patches (snd (m s))"
  by (simp add: SaveRequest_def split: prod.splits sum.splits)

lemma patches_send: "\<not> is_patch r \<Longrightarrow> patches (snd (send e r s)) = patches s"
  by (simp add: send_def patches_def split: reply.splits)

lemma patches_simple:
  "patches (snd (lift x s)) = patches s"
  "patches (snd (modify g s)) = patches (g s)"
  "patches (snd (CheckError t c s)) = patches s"
  "patches (snd (FetchErrors pre s)) = patches s"
  "patches (snd (now e s)) = patches s"
  by (simp_all add: lift_def modify_def CheckError_def FetchErrors_def now_def patches_def Let_def
      split: sum.splits prod.splits)

lemma patches_RefreshToken: "patches (snd (RefreshToken e s)) = patches s"
  by (simp add: patches_def RefreshToken_sent auth_request_def)

lemma patches_Connect: "patches (snd (Connect e s)) = patches s"
  unfolding Connect_def patches_SaveRequest
  by (intro patches_bnd patches_RefreshToken patches_send)
     (simp_all add: patches_def modify_def)

lemma patches_Heartbeat: "patches (snd (CheckLastHeartbeat e s)) = patches s"
  unfolding CheckLastHeartbeat_def
  by (intro patches_bnd) (simp_all add: patches_simple patches_RefreshToken)

lemma patches_connect_loop:
  assumes "connect_loop e a s = Some y"
  shows "patches (snd y) = patches s"
  using assms
proof (induction e a s y rule: connect_loop.raw_induct [rotated 1, consumes 1, case_names step])
  case (step loop e a s y)
  show ?case
  proof (cases "\<not> is_connected s \<and> a + 1 \<noteq> number_retry_connection s")
    case False
    with step(2) show ?thesis by (auto split: if_splits)
  next
    case True
    obtain r s1 where c: "Connect e s = (r, s1)" by (cases "Connect e s")
    with patches_Connect [of e s] have k: "patches s1 = patches s" by simp
    show ?thesis
    proof (cases r)
      case (Inl ex)
      with True c step(2) have "y = (Inl ex, s1)" by simp
      with k show ?thesis by simp
    next
      case (Inr u)
      with True c step(2) have "loop e (a + 1) s1 = Some y" by simp
      from step(1) [OF this] k show ?thesis by simp
    qed
  qed
qed

lemma patches_bndo:
  assumes "bndo m f s = Some (r, s')"
    and "\<And>s r s'. m s = Some (r, s') \<Longrightarrow> patches s' = patches s"
    and "\<And>v s r s'. f v s = Some (r, s') \<Longrightarrow> patches s' = patches s"
  shows "patches s' = patches s"
proof -
  from assms(1) obtain r1 s1 where m: "m s = Some (r1, s1)"
    by (auto simp add: bndo_def split: option.splits)
  note k = assms(2) [OF m]
  show ?thesis
  proof (cases r1)
    case (Inl ex)
    with m assms(1) have "s' = s1" by (simp add: bndo_def)
    with k show ?thesis by simp
  next
    case (Inr v)
    with m assms(1) have "f v s1 = Some (r, s')" by (simp add: bndo_def)
    from assms(3) [OF this] k show ?thesis by simp
  qed
qed

lemma patches_SaveRequestO:
  "SaveRequestO m s = Some (r, s') \<Longrightarrow> \<exists>r'. m s = Some (r', s')"
  by (auto simp add: SaveRequestO_def split: option.splits prod.splits sum.splits if_splits)

lemma patches_CheckConnected:
  assumes "CheckConnected e s = Some (r, s')"
  shows "patches s' = patches s"
  using assms unfolding CheckConnected_def
proof (rule patches_bndo)
  fix s r s'
  assume "(if \<not> is_connected s then connect_loop e 0 s else Some (Inr (), s)) = Some (r, s')"
  then show "patches s' = patches s"
    using patches_connect_loop [of e 0 s "(r, s')"] by (auto split: if_splits)
next
  fix v :: unit and s r s'
  assume "total (CheckLastHeartbeat e) s = Some (r, s')"
  then show "patches s' = patches s"
    using patches_Heartbeat [of e s] by (auto simp add: total_def)
qed

lemma patches_FetchAllFiles:
  assumes "FetchAllFiles e p s = Some (r, s')"
  shows "patches s' = patches s"
proof -
  from patches_SaveRequestO [OF assms [unfolded FetchAllFiles_def]] obtain r' where
    "bndo (CheckConnected e) (\<lambda>_.
       total (\<lambda>s.
         (let path_onedrive = strip_slashes p;
              u = url s @ ''me/drive/root:/'' @ path_onedrive @ '':/children''
          in bnd (send e (Get u (headers s))) (\<lambda>rp.
             bnd (lift (json_loads rp)) (\<lambda>response.
             bnd (CheckError (''Could not fetch all files from '' @ path_onedrive) (Parsed response)) (\<lambda>_.
             bnd (FetchErrors []) (\<lambda>_.
             bnd (lift (getitem response ''value'')) (\<lambda>v.
             bnd (lift (iterate v)) (\<lambda>items.
             lift (collect items [] []))))))) s))) s = Some (r', s')" ..
  then show ?thesis
  proof (rule patches_bndo)
    fix s r s' assume "CheckConnected e s = Some (r, s')"
    then show "patches s' = patches s" by (rule patches_CheckConnected)
  next
    fix v :: unit and s r s'
    assume a: "total (\<lambda>s.
         (let path_onedrive = strip_slashes p;
              u = url s @ ''me/drive/root:/'' @ path_onedrive @ '':/children''
          in bnd (send e (Get u (headers s))) (\<lambda>rp.
             bnd (lift (json_loads rp)) (\<lambda>response.
             bnd (CheckError (''Could not fetch all files from '' @ path_onedrive) (Parsed response)) (\<lambda>_.
             bnd (FetchErrors []) (\<lambda>_.
             bnd (lift (getitem response ''value'')) (\<lambda>v.
             bnd (lift (iterate v)) (\<lambda>items.
             lift (collect items [] []))))))) s)) s = Some (r, s')"
    have "patches (snd ((bnd (send e (Get (url s @ ''me/drive/root:/'' @ strip_slashes p @ '':/children'') (headers s))) (\<lambda>rp.
             bnd (lift (json_loads rp)) (\<lambda>response.
             bnd (CheckError (''Could not fetch all files from '' @ strip_slashes p) (Parsed response)) (\<lambda>_.
             bnd (FetchErrors []) (\<lambda>_.
             bnd (lift (getitem response ''value'')) (\<lambda>v.
             bnd (lift (iterate v)) (\<lambda>items.
             lift (collect items [] [])))))))) s)) = patches s"
      by (intro patches_bnd patches_send) (simp_all add: patches_simple)
    with a show "patches s' = patches s" by (auto simp add: total_def Let_def)
  qed
qed

lemma SaveRequestO_Inr: "SaveRequestO m s = Some (Inr v, s') \<Longrightarrow> m s = Some (Inr v, s')"
  by (auto simp add: SaveRequestO_def split: option.splits prod.splits sum.splits if_splits)

lemma patches_FetchFolderID:
  assumes "FetchFolderID e p s = Some (r, s')"
  shows "patches s' = patches s"
proof -
  from patches_SaveRequestO [OF assms [unfolded FetchFolderID_def]] obtain r' where
    "bndo (CheckConnected e) (\<lambda>_.
       total (\<lambda>s.
         (let path_onedrive = strip_slashes p;
              u = url s @ ''me/drive/root:/'' @ path_onedrive @ ''/''
          in bnd (send e (Get u (headers s))) (\<lambda>rp.
             bnd (lift (json_loads rp)) (\<lambda>response.
             bnd (CheckError (''Could not fetch the folder ID of '' @ path_onedrive) (Parsed response)) (\<lambda>_.
             bnd (FetchErrors []) (\<lambda>_.
             lift (getitem response ''id''))))) s))) s = Some (r', s')" ..
  then show ?thesis
  proof (rule patches_bndo)
    fix s r s' assume "CheckConnected e s = Some (r, s')"
    then show "patches s' = patches s" by (rule patches_CheckConnected)
  next
    fix v :: unit and s r s'
    assume a: "total (\<lambda>s.
         (let path_onedrive = strip_slashes p;
              u = url s @ ''me/drive/root:/'' @ path_onedrive @ ''/''
          in bnd (send e (Get u (headers s))) (\<lambda>rp.
             bnd (lift (json_loads rp)) (\<lambda>response.
             bnd (CheckError (''Could not fetch the folder ID of '' @ path_onedrive) (Parsed response)) (\<lambda>_.
             bnd (FetchErrors []) (\<lambda>_.
             lift (getitem response ''id''))))) s)) s = Some (r, s')"
    have "patches (snd ((bnd (send e (Get (url s @ ''me/drive/root:/'' @ strip_slashes p @ ''/'') (headers s))) (\<lambda>rp.
             bnd (lift (json_loads rp)) (\<lambda>response.
             bnd (CheckError (''Could not fetch the folder ID of '' @ strip_slashes p) (Parsed response)) (\<lambda>_.
             bnd (FetchErrors []) (\<lambda>_.
             lift (getitem response ''id'')))))) s)) = patches s"
      by (intro patches_bnd patches_send) (simp_all add: patches_simple)
    with a show "patches s' = patches s" by (auto simp add: total_def Let_def)
  qed
qed

lemma bnd_Inr:
  "bnd m f s = (Inr v, s') \<Longrightarrow> \<exists>u s1. m s = (Inr u, s1) \<and> f u s1 = (Inr v, s')"
  by (auto simp add: bnd_def split: prod.splits sum.splits)

lemma FetchFolderID_drained:
  assumes "FetchFolderID e p s = Some (Inr v, s')"
  shows "errors s' = []"
proof -
  from bndo_Some [OF SaveRequestO_Inr [OF assms [unfolded FetchFolderID_def]]] obtain u t1 where
    b: "total (\<lambda>s.
         (let path_onedrive = strip_slashes p;
              u = url s @ ''me/drive/root:/'' @ path_onedrive @ ''/''
          in bnd (send e (Get u (headers s))) (\<lambda>rp.
             bnd (lift (json_loads rp)) (\<lambda>response.
             bnd (CheckError (''Could not fetch the folder ID of '' @ path_onedrive) (Parsed response)) (\<lambda>_.
             bnd (FetchErrors []) (\<lambda>_.
             lift (getitem response ''id''))))) s)) t1 = Some (Inr v, s')"
    by blast
  then have "bnd (send e (Get (url t1 @ ''me/drive/root:/'' @ strip_slashes p @ ''/'') (headers t1))) (\<lambda>rp.
             bnd (lift (json_loads rp)) (\<lambda>response.
             bnd (CheckError (''Could not fetch the folder ID of '' @ strip_slashes p) (Parsed response)) (\<lambda>_.
             bnd (FetchErrors []) (\<lambda>_.
             lift (getitem response ''id''))))) t1 = (Inr v, s')"
    by (simp add: total_def Let_def)
  from bnd_Inr [OF this] obtain rp t2 where
    "bnd (lift (json_loads rp)) (\<lambda>response.
             bnd (CheckError (''Could not fetch the folder ID of '' @ strip_slashes p) (Parsed response)) (\<lambda>_.
             bnd (FetchErrors []) (\<lambda>_.
             lift (getitem response ''id'')))) t2 = (Inr v, s')" by blast
  from bnd_Inr [OF this] obtain response t3 where
    "bnd (CheckError (''Could not fetch the folder ID of '' @ strip_slashes p) (Parsed response)) (\<lambda>_.
             bnd (FetchErrors []) (\<lambda>_.
             lift (getitem response ''id''))) t3 = (Inr v, s')" by blast
  from bnd_Inr [OF this] obtain c t4 where
    "bnd (FetchErrors []) (\<lambda>_. lift (getitem response ''id'')) t4 = (Inr v, s')" by blast
  from bnd_Inr [OF this] obtain d t5 where
    f: "FetchErrors [] t4 = (Inr d, t5)" and l: "lift (getitem response ''id'') t5 = (Inr v, s')" by blast
  from FetchErrors_fields [OF f] l show ?thesis by (simp add: lift_def)
qed

lemma lookups_quiet:
  assumes "MoveFile_lookups e dest src s = Some (Inr (files_ids, dest_id), s1)"
  shows "patches s1 = patches s \<and> errors s1 = []"
proof -
  from bndo_Some [OF assms [unfolded MoveFile_lookups_def]] obtain u1 t1 where
    1: "CheckConnected e s = Some (Inr u1, t1)" and
    r1: "bndo (FetchAllFiles e (strip_slashes src)) (\<lambda>fetched.
     bndo (FetchFolderID e (strip_slashes dest)) (\<lambda>dest_path_id.
     total (ret (fst fetched, dest_path_id)))) t1 = Some (Inr (files_ids, dest_id), s1)"
    by blast
  from bndo_Some [OF r1] obtain fetched t2 where
    2: "FetchAllFiles e (strip_slashes src) t1 = Some (Inr fetched, t2)" and
    r2: "bndo (FetchFolderID e (strip_slashes dest)) (\<lambda>dest_path_id.
     total (ret (fst fetched, dest_path_id))) t2 = Some (Inr (files_ids, dest_id), s1)"
    by blast
  from bndo_Some [OF r2] obtain did t3 where
    3: "FetchFolderID e (strip_slashes dest) t2 = Some (Inr did, t3)" and
    r3: "total (ret (fst fetched, did)) t3 = Some (Inr (files_ids, dest_id), s1)"
    by blast
  from r3 have e: "t3 = s1" by (simp add: total_def ret_def)
  from patches_CheckConnected [OF 1] patches_FetchAllFiles [OF 2] patches_FetchFolderID [OF 3]
    FetchFolderID_drained [OF 3] e
  show ?thesis by simp
qed

text \<open>
  C10, as amended. When the connection check, the listing of the source directory and
  the lookup of the destination folder of \<open>MoveFile(dest, src, name)\<close> succeed and
  \<open>name\<close> is not among the files listed, \<open>MoveFile\<close> returns normally in the state
  the lookups left: it has issued no move (patch) request, the log is empty, and no
  exception is raised.
\<close>

theorem MoveFile_absent_name:
  "MoveFile_lookups e dest src s = Some (Inr (files_ids, dest_id), s1)
   \<and> PStr name \<notin> fst ` set files_ids \<longrightarrow>
     MoveFile e dest src name s = Some (Inr (), s1) \<and> patches s1 = patches s \<and> errors s1 = []"
  using MoveFile_absent [of e dest src s files_ids dest_id s1 name]
    lookups_quiet [of e dest src s files_ids dest_id s1]
  by blast

theorem MoveFile_absent_name_witness:
  "MoveFile (scripted [found ''a'', folder] 1) ''dest/'' ''/src'' ''x'' old_session =
     Some (Inr (), old_session\<lparr>reads := 3,
        sent := [Get ''me/drive/root:/src:/children'' [(''Authorization'', ''Bearer T'')],
                 Get ''me/drive/root:/dest/'' [(''Authorization'', ''Bearer T'')]]\<rparr>)"
proof -
  have l: "MoveFile_lookups (scripted [found ''a'', folder] 1) ''dest/'' ''/src'' old_session =
      Some (Inr ([(PStr ''a'', PStr ''7'')], PStr ''9''), old_session\<lparr>reads := 3,
        sent := [Get ''me/drive/root:/src:/children'' [(''Authorization'', ''Bearer T'')],
                 Get ''me/drive/root:/dest/'' [(''Authorization'', ''Bearer T'')]]\<rparr>)"
    by code_simp
  have n: "PStr ''x'' \<notin> fst ` set [(PStr ''a'', PStr ''7'')]" by simp
  from MoveFile_absent_name [of "scripted [found ''a'', folder] 1" "''dest/''" "''/src''" old_session
      "[(PStr ''a'', PStr ''7'')]" "PStr ''9''" _ "''x''"] l n
  show ?thesis by blast
qed

text \<open>
  The claim C10 as stated fails when the destination folder does not exist: the file
  is not among those listed, and \<open>MoveFile\<close> raises.
\<close>

theorem MoveFile_missing_folder_counterexample:
  "map_option fst (FetchAllFiles (scripted [found ''a'', not_found] 1) ''src'' old_session) =
     Some (Inr ([(PStr ''a'', PStr ''7'')], []))
   \<and> PStr ''x'' \<notin> fst ` set [(PStr ''a'', PStr ''7'')]
   \<and> map_option fst (MoveFile (scripted [found ''a'', not_found] 1) ''dest/'' ''/src'' ''x'' old_session) =
     Some (Inl (Exception ''Could not fetch the folder ID of dest (Code: itemNotFound)''))"
  by code_simp

section \<open>Properties of the transfers\<close>

lemma dict_get_listed:
  "str_ids af \<Longrightarrow> k \<in> set (map fst af) \<Longrightarrow> \<exists>i. dict_get k af = Some (PStr i)"
proof (induction af)
  case Nil
  then show ?case by simp
next
  case (Cons kv af)
  obtain k' v where kv: "kv = (k', v)" by (cases kv)
  from Cons.prems(1) obtain i where v: "v = PStr i"
    by (cases v) (auto simp add: str_ids_def kv)
  show ?case
  proof (cases "key_eq k' k")
    case True
    then show ?thesis by (simp add: kv v)
  next
    case False
    with Cons.prems(2) have "k \<in> set (map fst af)" using key_eq_refl [of k] by (auto simp add: kv)
    moreover from Cons.prems(1) have "str_ids af" by (simp add: str_ids_def)
    ultimately show ?thesis using Cons.IH False by (simp add: kv)
  qed
qed

lemma Download_threads_eq:
  assumes "str_ids af"
  shows "n \<le> index \<Longrightarrow> index \<le> length af \<Longrightarrow>
   Download_threads s pl sf log af (map fst af) n index =
     (map (download_thread (url s) (headers s) pl log af)
          (filter (selected sf) (take n (drop (length af - index) (rev (map fst af))))), None)"
proof (induction n arbitrary: index)
  case 0
  then show ?case by simp
next
  case (Suc n)
  then obtain i where i: "index = Suc i" by (cases index) auto
  define keys where "keys = map fst af"
  have lk: "length keys = length af" by (simp add: keys_def)
  have k: "length af - Suc i < length (rev keys)" using Suc.prems i lk by simp
  have nth: "rev keys ! (length af - Suc i) = keys ! i" using Suc.prems i lk by (simp add: rev_nth)
  have t: "take (Suc n) (drop (length af - Suc i) (rev keys)) =
        rev keys ! (length af - Suc i) # take n (drop (Suc (length af - Suc i)) (rev keys))"
    using k by (simp add: Cons_nth_drop_Suc [symmetric])
  have s: "Suc (length af - Suc i) = length af - i" using Suc.prems i by simp
  have "keys ! i \<in> set (map fst af)" using Suc.prems i lk unfolding keys_def [symmetric] by simp
  from dict_get_listed [OF assms this] obtain fid where g: "dict_get (keys ! i) af = Some (PStr fid)" ..
  have ih: "Download_threads s pl sf log af keys n i =
     (map (download_thread (url s) (headers s) pl log af)
        (filter (selected sf) (take n (drop (length af - i) (rev keys)))), None)"
    using Suc.IH [of i] Suc.prems i by (simp add: keys_def)
  have step: "Download_threads s pl sf log af keys (Suc n) (Suc i) =
      (if selected sf (keys ! i)
       then (download_thread (url s) (headers s) pl log af (keys ! i)
               # fst (Download_threads s pl sf log af keys n i),
             snd (Download_threads s pl sf log af keys n i))
       else Download_threads s pl sf log af keys n i)"
    by (simp add: Let_def g selected_def download_thread_def split: prod.splits)
  show ?case
    unfolding keys_def [symmetric] i step ih
    by (simp add: t s nth)
qed

lemma Download_loop_chunks:
  assumes "1 \<le> max_threads s" "index \<le> length af" "str_ids af"
  shows "Download_loop e pl sf log af (map fst af) index s =
     Some (run_chunks e ''Could not download all files: ''
             (map (\<lambda>piece. map (download_thread (url s) (headers s) pl log af)
                               (filter (selected sf) piece))
                (chunks (nat (max_threads s)) (drop (length af - index) (rev (map fst af))))) s)"
  using assms(1,2)
proof (induction index arbitrary: s rule: less_induct)
  case (less index)
  show ?case
  proof (cases "index = 0")
    case True
    then show ?thesis by (subst Download_loop.simps) simp
  next
    case False
    define m where "m = nat (max_threads s)"
    define n where "n = nat (if int index < max_threads s then int index else max_threads s)"
    define mk where "mk = (\<lambda>piece. map (download_thread (url s) (headers s) pl log af)
                               (filter (selected sf) piece))"
    define xs where "xs = drop (length af - index) (rev (map fst af))"
    have m: "0 < m" using less.prems by (simp add: m_def)
    have n: "n = min index m" using less.prems by (auto simp add: n_def m_def)
    have lx: "length xs = index" using less.prems by (simp add: xs_def)
    have xne: "xs \<noteq> []" using lx False by auto
    have n1: "0 < n" "n \<le> index" using n m False by auto
    have th: "Download_threads s pl sf log af (map fst af) n index = (mk (take m xs), None)"
      using Download_threads_eq [OF assms(3), of n index s pl sf log] n1 less.prems lx
      by (simp add: xs_def mk_def n min_def)
    define s1 where "s1 = JoinThreads e (mk (take m xs)) s"
    have rest: "drop m xs = drop (length af - (index - n)) (rev (map fst af))"
    proof (cases "m \<le> index")
      case True
      then have "n = m" using n by simp
      moreover have "m + (length af - index) = length af - (index - m)" using True less.prems by simp
      ultimately show ?thesis by (simp add: xs_def ac_simps)
    next
      case False
      then have "n = index" using n by simp
      then show ?thesis using False lx by (simp add: xs_def)
    qed
    have nn: "nat (int index - (if int index < max_threads s then int index else max_threads s)) = index - n"
      using less.prems by (cases "int index < max_threads s") (simp_all add: n_def nat_diff_distrib')
    have unfold: "Download_loop e pl sf log af (map fst af) index s =
        (case FetchErrors ''Could not download all files: '' s1 of
              (Inl ex, s2) \<Rightarrow> Some (Inl ex, s2)
            | (Inr _, s2) \<Rightarrow> Download_loop e pl sf log af (map fst af) (index - n) s2)"
      using False th
      by (subst Download_loop.simps)
         (simp add: Let_def nn n_def [symmetric] s1_def split del: if_split cong: prod.case_cong sum.case_cong)
    obtain r s2 where f: "FetchErrors ''Could not download all files: '' s1 = (r, s2)"
      by (cases "FetchErrors ''Could not download all files: '' s1")
    have ch: "chunks m xs = take m xs # chunks m (drop m xs)" using m xne by (rule chunks_Cons)
    show ?thesis
    proof (cases r)
      case (Inl ex)
      with f unfold ch show ?thesis
        by (simp add: m_def [symmetric] xs_def [symmetric] mk_def [symmetric] s1_def [symmetric])
    next
      case (Inr u)
      from FetchErrors_fields [OF f] JoinThreads_fields [of e "mk (take m xs)" s]
      have k: "max_threads s2 = max_threads s" "url s2 = url s" "headers s2 = headers s"
        by (simp_all add: s1_def)
      have "Download_loop e pl sf log af (map fst af) (index - n) s2 =
        Some (run_chunks e ''Could not download all files: ''
             (map (\<lambda>piece. map (download_thread (url s2) (headers s2) pl log af)
                               (filter (selected sf) piece))
                (chunks (nat (max_threads s2)) (drop (length af - (index - n)) (rev (map fst af))))) s2)"
        using less.prems n1 k by (intro less.IH) auto
      with Inr f unfold ch rest k show ?thesis
        by (simp add: m_def [symmetric] xs_def [symmetric] mk_def [symmetric] s1_def [symmetric])
    qed
  qed
qed

lemma run_chunks_append:
  "run_chunks e pre (as @ bs) s =
     (case run_chunks e pre as s of
        (Inl ex, s') \<Rightarrow> (Inl ex, s')
      | (Inr _, s') \<Rightarrow> run_chunks e pre bs s')"
  by (induction as arbitrary: s) (auto split: prod.splits sum.splits)

lemma run_chunks_first_failure:
  assumes perm: "\<And>b ms. mset (sched e b ms) = mset ms"
    and "errors s = []" "k < length wss" "quiet e s (take k wss)"
    and m: "m \<in> set (thread_messages e (length (launched s) + k) (wss ! k) s)"
  shows "\<exists>msg. run_chunks e pre wss s =
           (Inl (Exception (pre @ msg)), s\<lparr>launched := launched s @ take (Suc k) wss, errors := []\<rparr>)
         \<and> sublist m msg"
proof -
  define s1 where "s1 = s\<lparr>launched := launched s @ take k wss\<rparr>"
  have w: "wss = take k wss @ (wss ! k # drop (Suc k) wss)"
    using assms(3) by (simp add: Cons_nth_drop_Suc)
  have q: "run_chunks e pre (take k wss) s = (Inr (), s1)"
    unfolding s1_def by (rule run_chunks_quiet [OF assms(2) assms(4) perm_nonempty(2) [OF perm]])
  define ms where "ms = sched e (length (launched s1)) (thread_messages e (length (launched s1)) (wss ! k) s1)"
  have l1: "length (launched s1) = length (launched s) + k" using assms(3) by (simp add: s1_def)
  have "m \<in> set (thread_messages e (length (launched s1)) (wss ! k) s1)"
    using m thread_messages_indep [of e _ _ s1 s] by (simp add: l1)
  then have mm: "m \<in> set ms" unfolding ms_def perm_nonempty(1) [OF perm] .
  then have ne: "ms \<noteq> []" by auto
  have j: "JoinThreads e (wss ! k) s1 = s1\<lparr>launched := launched s1 @ [wss ! k], errors := ms\<rparr>"
    using assms(2) by (simp add: JoinThreads_def Let_def ms_def s1_def)
  have f: "FetchErrors pre (JoinThreads e (wss ! k) s1) =
      (Inl (Exception (pre @ join ''. '' ms)), s1\<lparr>launched := launched s1 @ [wss ! k], errors := []\<rparr>)"
    unfolding j using ne by (simp add: FetchErrors_def Let_def)
  have t: "take (Suc k) wss = take k wss @ [wss ! k]"
    using assms(3) by (rule take_Suc_conv_app_nth)
  have "run_chunks e pre wss s =
      (Inl (Exception (pre @ join ''. '' ms)), s1\<lparr>launched := launched s1 @ [wss ! k], errors := []\<rparr>)"
    by (subst w) (simp add: run_chunks_append q f)
  moreover have "s1\<lparr>launched := launched s1 @ [wss ! k], errors := []\<rparr> =
      s\<lparr>launched := launched s @ take (Suc k) wss, errors := []\<rparr>"
    by (simp add: s1_def t)
  moreover have "sublist m (join ''. '' ms)" using mm by (rule join_sublist)
  ultimately show ?thesis by auto
qed

lemma Upload_unfold:
  assumes "CheckConnected e s = Some (Inr (), s1)" "path \<noteq> []"
  shows "Upload e fs path log s = SaveRequestO (Upload_loop e fs (upload_path path) log (length fs)) s1"
  using assms by (simp add: Upload_def SaveRequestO_def bndo_def upload_path_def Let_def)

lemma Download_unfold:
  assumes "CheckConnected e s = Some (Inr (), s1)"
    "FetchAllFiles e (strip_slashes po) s1 = Some (Inr (af, fo), s2)"
  shows "Download e po pl sf log s =
           SaveRequestO (Download_loop e pl sf log af (map fst af) (length af)) s2"
  using assms by (simp add: Download_def SaveRequestO_def bndo_def Let_def)

lemma SaveRequestO_run:
  "m s = Some (r, s') \<Longrightarrow> (\<forall>ex. r = Inl ex \<longrightarrow> str_exn ex \<noteq> []) \<Longrightarrow> SaveRequestO m s = Some (r, s')"
  by (cases r) (auto simp add: SaveRequestO_def)

lemma errors_RefreshToken: "errors (snd (RefreshToken e s)) = errors s"
  by (simp add: RefreshToken_def SaveRequest_def bnd_def send_def lift_def modify_def now_def
      Let_def split: option.splits sum.splits reply.splits prod.splits)

lemma errors_Connect: "errors (snd (Connect e s)) = errors s"
proof -
  obtain r s1 where r: "RefreshToken e s = (r, s1)" by (cases "RefreshToken e s")
  with errors_RefreshToken [of e s] have "errors s1 = errors s" by simp
  with r show ?thesis
    by (simp add: Connect_def SaveRequest_def bnd_def send_def modify_def
        split: sum.splits reply.splits prod.splits)
qed

lemma errors_Heartbeat: "errors (snd (CheckLastHeartbeat e s)) = errors s"
  using errors_RefreshToken [of e "s\<lparr>reads := Suc (reads s)\<rparr>"]
  by (simp add: CheckLastHeartbeat_def bnd_def now_def)

lemma errors_connect_loop:
  assumes "connect_loop e a s = Some y"
  shows "errors (snd y) = errors s"
  using assms
proof (induction e a s y rule: connect_loop.raw_induct [rotated 1, consumes 1, case_names step])
  case (step loop e a s y)
  show ?case
  proof (cases "\<not> is_connected s \<and> a + 1 \<noteq> number_retry_connection s")
    case False
    with step(2) show ?thesis by (auto split: if_splits)
  next
    case True
    obtain r s1 where c: "Connect e s = (r, s1)" by (cases "Connect e s")
    with errors_Connect [of e s] have k: "errors s1 = errors s" by simp
    show ?thesis
    proof (cases r)
      case (Inl ex)
      with True c step(2) have "y = (Inl ex, s1)" by simp
      with k show ?thesis by simp
    next
      case (Inr u)
      with True c step(2) have "loop e (a + 1) s1 = Some y" by simp
      from step(1) [OF this] k show ?thesis by simp
    qed
  qed
qed

lemma CheckConnected_errors:
  assumes "CheckConnected e s = Some (r, s')"
  shows "errors s' = errors s"
proof -
  from assms obtain r1 s1 where
    1: "(if \<not> is_connected s then connect_loop e 0 s else Some (Inr (), s)) = Some (r1, s1)"
    by (auto simp add: CheckConnected_def bndo_def split: option.splits)
  then have k: "errors s1 = errors s"
    using errors_connect_loop [of e 0 s "(r1, s1)"] by (auto split: if_splits)
  show ?thesis
  proof (cases r1)
    case (Inl ex)
    with 1 assms have "s' = s1" by (simp add: CheckConnected_def bndo_def)
    with k show ?thesis by simp
  next
    case (Inr u)
    with 1 assms have "CheckLastHeartbeat e s1 = (r, s')"
      by (simp add: CheckConnected_def bndo_def total_def)
    with errors_Heartbeat [of e s1] k show ?thesis by simp
  qed
qed

lemma FetchAllFiles_drained:
  assumes "FetchAllFiles e p s = Some (Inr v, s')"
  shows "errors s' = []"
proof -
  from bndo_Some [OF SaveRequestO_Inr [OF assms [unfolded FetchAllFiles_def]]] obtain u t1 where
    b: "total (\<lambda>s.
         (let path_onedrive = strip_slashes p;
              u = url s @ ''me/drive/root:/'' @ path_onedrive @ '':/children''
          in bnd (send e (Get u (headers s))) (\<lambda>rp.
             bnd (lift (json_loads rp)) (\<lambda>response.
             bnd (CheckError (''Could not fetch all files from '' @ path_onedrive) (Parsed response)) (\<lambda>_.
             bnd (FetchErrors []) (\<lambda>_.
             bnd (lift (getitem response ''value'')) (\<lambda>v.
             bnd (lift (iterate v)) (\<lambda>items.
             lift (collect items [] []))))))) s)) t1 = Some (Inr v, s')"
    by blast
  then have "bnd (send e (Get (url t1 @ ''me/drive/root:/'' @ strip_slashes p @ '':/children'') (headers t1))) (\<lambda>rp.
             bnd (lift (json_loads rp)) (\<lambda>response.
             bnd (CheckError (''Could not fetch all files from '' @ strip_slashes p) (Parsed response)) (\<lambda>_.
             bnd (FetchErrors []) (\<lambda>_.
             bnd (lift (getitem response ''value'')) (\<lambda>v.
             bnd (lift (iterate v)) (\<lambda>items.
             lift (collect items [] []))))))) t1 = (Inr v, s')"
    by (simp add: total_def Let_def)
  from bnd_Inr [OF this] obtain rp t2 where
    "bnd (lift (json_loads rp)) (\<lambda>response.
             bnd (CheckError (''Could not fetch all files from '' @ strip_slashes p) (Parsed response)) (\<lambda>_.
             bnd (FetchErrors []) (\<lambda>_.
             bnd (lift (getitem response ''value'')) (\<lambda>v.
             bnd (lift (iterate v)) (\<lambda>items.
             lift (collect items [] [])))))) t2 = (Inr v, s')" by blast
  from bnd_Inr [OF this] obtain response t3 where
    "bnd (CheckError (''Could not fetch all files from '' @ strip_slashes p) (Parsed response)) (\<lambda>_.
             bnd (FetchErrors []) (\<lambda>_.
             bnd (lift (getitem response ''value'')) (\<lambda>v.
             bnd (lift (iterate v)) (\<lambda>items.
             lift (collect items [] []))))) t3 = (Inr v, s')" by blast
  from bnd_Inr [OF this] obtain c t4 where
    "bnd (FetchErrors []) (\<lambda>_.
             bnd (lift (getitem response ''value'')) (\<lambda>v.
             bnd (lift (iterate v)) (\<lambda>items.
             lift (collect items [] [])))) t4 = (Inr v, s')" by blast
  from bnd_Inr [OF this] obtain d t5 where
    f: "FetchErrors [] t4 = (Inr d, t5)" and
    l: "bnd (lift (getitem response ''value'')) (\<lambda>v.
             bnd (lift (iterate v)) (\<lambda>items.
             lift (collect items [] []))) t5 = (Inr v, s')" by blast
  from l have "s' = t5" by (auto simp add: bnd_def lift_def split: sum.splits)
  with FetchErrors_fields [OF f] show ?thesis by simp
qed

lemma chunks_zero: "chunks 0 xs = []"
  by (subst chunks.simps) simp

lemma chunks_nonzero: "k < length (chunks n xs) \<Longrightarrow> 0 < n"
proof (rule ccontr)
  assume a: "k < length (chunks n xs)" and "\<not> 0 < n"
  then have "n = 0" by simp
  then have "chunks n xs = []" by (simp only: chunks_zero)
  with a show False by simp
qed

lemma chunks_positive: "k < length (chunks (nat M) xs) \<Longrightarrow> 1 \<le> M"
proof -
  assume "k < length (chunks (nat M) xs)"
  then have "0 < nat M" by (rule chunks_nonzero)
  then show ?thesis by simp
qed

lemma chunks_nth_set:
  assumes "k < length (chunks n xs)" "i < length (chunks n xs ! k)"
  shows "chunks n xs ! k ! i \<in> set xs"
proof -
  have n: "0 < n" using assms(1) by (rule chunks_nonzero)
  have e: "chunks n xs ! k = take n (drop (k * n) xs)" using n assms(1) by (rule chunks_nth)
  have "chunks n xs ! k ! i \<in> set (chunks n xs ! k)" using assms(2) by (rule nth_mem)
  then have "chunks n xs ! k ! i \<in> set (take n (drop (k * n) xs))" unfolding e .
  then have "chunks n xs ! k ! i \<in> set (drop (k * n) xs)" by (rule in_set_takeD)
  then show ?thesis by (rule in_set_dropD)
qed

lemma upload_batches_names:
  assumes "k < length (upload_batches s fs path log)" "i < length (upload_batches s fs path log ! k)"
    and "m \<in> set (thread_records e b i (upload_batches s fs path log ! k ! i))"
  shows "sublist (item_name (upload_batches s fs path log ! k ! i)) m"
proof -
  define w where "w = upload_batches s fs path log ! k ! i"
  have "w \<in> set (map (upload_thread (url s) (headers s) path log) (rev fs))"
    unfolding w_def using assms(1,2) unfolding upload_batches_def by (rule chunks_nth_set)
  then obtain f u h l where k: "w = UploadIntern f u h l"
    by (auto simp add: upload_thread_def Let_def)
  from assms(3) have "m \<in> set (thread_records e b i (UploadIntern f u h l))"
    by (simp only: w_def [symmetric] k)
  then have "m \<in> set (errors (run_thread e (wnet e b i) (UploadIntern f u h l) (init\<lparr>errors := []\<rparr>)))"
    by (simp only: thread_records_eq)
  from upload_message_names [OF this] obtain zs where "m = (''Could not upload '' @ f) @ zs"
    by (auto simp add: prefix_def)
  then have "m = ''Could not upload '' @ f @ zs" by simp
  then have fm: "sublist f m" unfolding sublist_def by blast
  show ?thesis
    using sublist_order.order.trans [OF last_segment_sublist [of f] fm]
    by (simp add: w_def [symmetric] k)
qed

lemma download_batches_names:
  assumes "k < length (download_batches s pl sf log af)" "i < length (download_batches s pl sf log af ! k)"
    and "m \<in> set (thread_records e b i (download_batches s pl sf log af ! k ! i))"
    and "wnet e b i = Reply st body" "400 \<le> st" "st < 600"
  shows "m = ''Could not download '' @ item_name (download_batches s pl sf log af ! k ! i)"
proof -
  define w where "w = download_batches s pl sf log af ! k ! i"
  define piece where "piece = filter (selected sf) (chunks (nat (max_threads s)) (rev (map fst af)) ! k)"
  have b: "download_batches s pl sf log af ! k = map (download_thread (url s) (headers s) pl log af) piece"
    using assms(1) by (simp add: download_batches_def piece_def)
  with assms(2) have "w = download_thread (url s) (headers s) pl log af (piece ! i)"
    by (simp add: w_def)
  then obtain f u h l where k: "w = DownloadIntern pl f u h l"
    by (simp add: download_thread_def)
  from assms(3) have "m \<in> set (thread_records e b i (DownloadIntern pl f u h l))"
    by (simp only: w_def [symmetric] k)
  from download_thread_names [OF this assms(4-6)] show ?thesis
    by (simp add: w_def [symmetric] k)
qed


lemma Upload_run:
  assumes "CheckConnected e s = Some (Inr (), s1)" "path \<noteq> []" "1 \<le> max_threads s1"
  shows "Upload e fs path log s =
     SaveRequestO (\<lambda>s. Some (run_chunks e ''Could not upload all files: ''
                        (upload_batches s fs (upload_path path) log) s)) s1"
  using Upload_unfold [OF assms(1,2)] Upload_loop_chunks [OF assms(3), of "length fs" fs e "upload_path path" log]
  by (simp add: SaveRequestO_def upload_batches_def)

lemma Download_run:
  assumes "CheckConnected e s = Some (Inr (), s1)"
    "FetchAllFiles e (strip_slashes po) s1 = Some (Inr (af, fo), s2)"
    "str_ids af" "1 \<le> max_threads s2"
  shows "Download e po pl sf log s =
     SaveRequestO (\<lambda>s. Some (run_chunks e ''Could not download all files: ''
                        (download_batches s pl sf log af) s)) s2"
  using Download_unfold [OF assms(1,2)] Download_loop_chunks [OF assms(4) _ assms(3), of "length af" e pl sf log]
  by (simp add: SaveRequestO_def download_batches_def)

text \<open>
  C1, as amended. \<open>Upload\<close> is called with a non-empty remote path and an empty log,
  \<open>Download\<close> gets a listing in which every id is a string, and the connection check
  (for \<open>Download\<close> the listing too) returns normally. If no thread of the first \<open>k\<close>
  batches records a message and thread \<open>i\<close> of batch \<open>k\<close> records \<open>m\<close>, the call
  raises, after the join of batch \<open>k\<close>, one exception whose message is the prefix
  followed by the joined log and holds \<open>m\<close>. The object is then the one the connection
  check (the listing) left, with the batches up to \<open>k\<close> added to the batches started
  and the log empty: no thread of a later batch is started and nothing is undone. The
  message an upload thread records holds the base name of its file, and the message of
  a download thread whose request is answered with a status from 400 to 599 is
  "Could not download " followed by the name of its file.
\<close>

theorem transfer_fails_fast:
  assumes "\<And>b ms. mset (sched e b ms) = mset ms"
    and "CheckConnected e s = Some (Inr (), s1)"
  shows
   "(path \<noteq> [] \<and> errors s = []
       \<and> k < length (upload_batches s1 fs (upload_path path) log)
       \<and> quiet e s1 (take k (upload_batches s1 fs (upload_path path) log))
       \<and> i < length (upload_batches s1 fs (upload_path path) log ! k)
       \<and> m \<in> set (thread_records e (length (launched s1) + k) i
                     (upload_batches s1 fs (upload_path path) log ! k ! i)) \<longrightarrow>
       (\<exists>msg. Upload e fs path log s =
                 Some (Inl (Exception (''Could not upload all files: '' @ msg)),
                       s1\<lparr>launched := launched s1 @ take (Suc k) (upload_batches s1 fs (upload_path path) log),
                          errors := []\<rparr>)
              \<and> sublist m msg)
       \<and> sublist (item_name (upload_batches s1 fs (upload_path path) log ! k ! i)) m)
    \<and> (FetchAllFiles e (strip_slashes po) s1 = Some (Inr (af, fo), s2) \<and> str_ids af
       \<and> k < length (download_batches s2 pl sf log af)
       \<and> quiet e s2 (take k (download_batches s2 pl sf log af))
       \<and> i < length (download_batches s2 pl sf log af ! k)
       \<and> m \<in> set (thread_records e (length (launched s2) + k) i
                     (download_batches s2 pl sf log af ! k ! i)) \<longrightarrow>
       (\<exists>msg. Download e po pl sf log s =
                 Some (Inl (Exception (''Could not download all files: '' @ msg)),
                       s2\<lparr>launched := launched s2 @ take (Suc k) (download_batches s2 pl sf log af),
                          errors := []\<rparr>)
              \<and> sublist m msg)
       \<and> (\<forall>st body. wnet e (length (launched s2) + k) i = Reply st body \<and> 400 \<le> st \<and> st < 600 \<longrightarrow>
             m = ''Could not download '' @ item_name (download_batches s2 pl sf log af ! k ! i)))"
proof (rule conjI; rule impI)
  assume h: "path \<noteq> [] \<and> errors s = []
       \<and> k < length (upload_batches s1 fs (upload_path path) log)
       \<and> quiet e s1 (take k (upload_batches s1 fs (upload_path path) log))
       \<and> i < length (upload_batches s1 fs (upload_path path) log ! k)
       \<and> m \<in> set (thread_records e (length (launched s1) + k) i
                     (upload_batches s1 fs (upload_path path) log ! k ! i))"
  define B where "B = upload_batches s1 fs (upload_path path) log"
  from h have p: "path \<noteq> []" and er: "errors s = []" and k: "k < length B"
    and q: "quiet e s1 (take k B)" and i: "i < length (B ! k)"
    and m: "m \<in> set (thread_records e (length (launched s1) + k) i (B ! k ! i))"
    unfolding B_def by simp_all
  have m1: "1 \<le> max_threads s1" using k unfolding B_def upload_batches_def by (rule chunks_positive)
  have e1: "errors s1 = []" using CheckConnected_errors [OF assms(2)] er by simp
  from run_chunks_first_failure [OF assms(1) e1 k q thread_recorded [OF i m]]
  obtain msg where
    r: "run_chunks e ''Could not upload all files: '' B s1 =
         (Inl (Exception (''Could not upload all files: '' @ msg)),
          s1\<lparr>launched := launched s1 @ take (Suc k) B, errors := []\<rparr>)"
    and s: "sublist m msg"
    by blast
  have "Upload e fs path log s =
      Some (Inl (Exception (''Could not upload all files: '' @ msg)),
            s1\<lparr>launched := launched s1 @ take (Suc k) B, errors := []\<rparr>)"
    unfolding Upload_run [OF assms(2) p m1] using r by (simp add: SaveRequestO_def B_def)
  with s have "\<exists>msg. Upload e fs path log s =
      Some (Inl (Exception (''Could not upload all files: '' @ msg)),
            s1\<lparr>launched := launched s1 @ take (Suc k) B, errors := []\<rparr>) \<and> sublist m msg"
    by (intro exI conjI)
  moreover have "sublist (item_name (B ! k ! i)) m"
    using k i m unfolding B_def by (rule upload_batches_names)
  ultimately show "(\<exists>msg. Upload e fs path log s =
                 Some (Inl (Exception (''Could not upload all files: '' @ msg)),
                       s1\<lparr>launched := launched s1 @ take (Suc k) (upload_batches s1 fs (upload_path path) log),
                          errors := []\<rparr>)
              \<and> sublist m msg)
       \<and> sublist (item_name (upload_batches s1 fs (upload_path path) log ! k ! i)) m"
    unfolding B_def by (rule conjI)
next
  assume h: "FetchAllFiles e (strip_slashes po) s1 = Some (Inr (af, fo), s2) \<and> str_ids af
       \<and> k < length (download_batches s2 pl sf log af)
       \<and> quiet e s2 (take k (download_batches s2 pl sf log af))
       \<and> i < length (download_batches s2 pl sf log af ! k)
       \<and> m \<in> set (thread_records e (length (launched s2) + k) i
                     (download_batches s2 pl sf log af ! k ! i))"
  define B where "B = download_batches s2 pl sf log af"
  from h have f: "FetchAllFiles e (strip_slashes po) s1 = Some (Inr (af, fo), s2)" and ids: "str_ids af"
    and k: "k < length B" and q: "quiet e s2 (take k B)" and i: "i < length (B ! k)"
    and m: "m \<in> set (thread_records e (length (launched s2) + k) i (B ! k ! i))"
    unfolding B_def by simp_all
  have "k < length (chunks (nat (max_threads s2)) (rev (map fst af)))"
    using k by (simp add: B_def download_batches_def)
  then have m1: "1 \<le> max_threads s2" by (rule chunks_positive)
  have e1: "errors s2 = []" using f by (rule FetchAllFiles_drained)
  from run_chunks_first_failure [OF assms(1) e1 k q thread_recorded [OF i m]]
  obtain msg where
    r: "run_chunks e ''Could not download all files: '' B s2 =
         (Inl (Exception (''Could not download all files: '' @ msg)),
          s2\<lparr>launched := launched s2 @ take (Suc k) B, errors := []\<rparr>)"
    and s: "sublist m msg"
    by blast
  have "Download e po pl sf log s =
      Some (Inl (Exception (''Could not download all files: '' @ msg)),
            s2\<lparr>launched := launched s2 @ take (Suc k) B, errors := []\<rparr>)"
    unfolding Download_run [OF assms(2) f ids m1] using r by (simp add: SaveRequestO_def B_def)
  with s have "\<exists>msg. Download e po pl sf log s =
      Some (Inl (Exception (''Could not download all files: '' @ msg)),
            s2\<lparr>launched := launched s2 @ take (Suc k) B, errors := []\<rparr>) \<and> sublist m msg"
    by (intro exI conjI)
  moreover have "\<forall>st body. wnet e (length (launched s2) + k) i = Reply st body \<and> 400 \<le> st \<and> st < 600 \<longrightarrow>
             m = ''Could not download '' @ item_name (B ! k ! i)"
    using download_batches_names [OF k [unfolded B_def] i [unfolded B_def] m [unfolded B_def]]
    unfolding B_def by blast
  ultimately show "(\<exists>msg. Download e po pl sf log s =
                 Some (Inl (Exception (''Could not download all files: '' @ msg)),
                       s2\<lparr>launched := launched s2 @ take (Suc k) (download_batches s2 pl sf log af),
                          errors := []\<rparr>)
              \<and> sublist m msg)
       \<and> (\<forall>st body. wnet e (length (launched s2) + k) i = Reply st body \<and> 400 \<le> st \<and> st < 600 \<longrightarrow>
             m = ''Could not download '' @ item_name (download_batches s2 pl sf log af ! k ! i))"
    unfolding B_def by (rule conjI)
qed

theorem transfer_fails_fast_witness:
  "(\<exists>msg. Upload (files_env [] [''a'', ''b''] True (\<lambda>_ _. accepted)) [''d/c'', ''a'', ''b''] ''x'' True two_threads =
       Some (Inl (Exception (''Could not upload all files: '' @ msg)),
             two_threads\<lparr>reads := 1, launched :=
               [[UploadIntern ''b'' ''u/me/drive/root:/x/b:/content'' [] True,
                 UploadIntern ''a'' ''u/me/drive/root:/x/a:/content'' [] True],
                [UploadIntern ''d/c'' ''u/me/drive/root:/x/c:/content'' [] True]]\<rparr>)
       \<and> sublist ''Could not upload d/c: File does not exist'' msg)
   \<and> sublist ''c'' ''Could not upload d/c: File does not exist''
   \<and> (\<exists>msg. Download (files_env [three_files] [] True (\<lambda>b _. if b = 1 then denied else accepted))
               ''remote'' ''out'' [] True two_threads =
       Some (Inl (Exception (''Could not download all files: '' @ msg)),
             two_threads\<lparr>sent := [Get ''u/me/drive/root:/remote:/children'' []], reads := 2, launched :=
               [[DownloadIntern ''out'' (PStr ''c'') ''u/me/drive/items/3/content'' [] True,
                 DownloadIntern ''out'' (PStr ''b'') ''u/me/drive/items/2/content'' [] True],
                [DownloadIntern ''out'' (PStr ''a'') ''u/me/drive/items/1/content'' [] True]]\<rparr>)
       \<and> sublist ''Could not download a'' msg)"
proof -
  let ?e = "files_env [] [''a'', ''b''] True (\<lambda>_ _. accepted)"
  let ?d = "files_env [three_files] [] True (\<lambda>b _. if b = 1 then denied else accepted)"
  let ?s1 = "two_threads\<lparr>reads := 1\<rparr>"
  let ?s2 = "two_threads\<lparr>sent := [Get ''u/me/drive/root:/remote:/children'' []], reads := 2\<rparr>"
  let ?us = "[[UploadIntern ''b'' ''u/me/drive/root:/x/b:/content'' [] True,
               UploadIntern ''a'' ''u/me/drive/root:/x/a:/content'' [] True],
              [UploadIntern ''d/c'' ''u/me/drive/root:/x/c:/content'' [] True]]"
  let ?ds = "[[DownloadIntern ''out'' (PStr ''c'') ''u/me/drive/items/3/content'' [] True,
               DownloadIntern ''out'' (PStr ''b'') ''u/me/drive/items/2/content'' [] True],
              [DownloadIntern ''out'' (PStr ''a'') ''u/me/drive/items/1/content'' [] True]]"
  have p: "\<And>b ms. mset (sched ?e b ms) = mset ms" "\<And>b ms. mset (sched ?d b ms) = mset ms"
    by (simp_all add: files_env_def)
  have cu: "CheckConnected ?e two_threads = Some (Inr (), ?s1)" by code_simp
  have cd: "CheckConnected ?d two_threads = Some (Inr (), ?s1)" by code_simp
  have fa: "FetchAllFiles ?d (strip_slashes ''remote'') ?s1 = Some (Inr (listing, []), ?s2)" by code_simp
  have ub: "upload_batches ?s1 [''d/c'', ''a'', ''b''] (upload_path ''x'') True = ?us" by code_simp
  have db: "download_batches ?s2 ''out'' [] True listing = ?ds" by code_simp
  have l0: "launched ?s1 = []" "launched ?s2 = []" "errors two_threads = []"
    by (simp_all add: two_threads_def init_def)
  have qu: "quiet ?e ?s1 (take 1 ?us)"
    unfolding quiet_def by (simp add: thread_messages_def files_env_def accepted_def
        CheckError_def two_threads_def init_def)
  have qd: "quiet ?d ?s2 (take 1 ?ds)"
    unfolding quiet_def by (simp add: thread_messages_def files_env_def accepted_def
        CheckError_def two_threads_def init_def)
  have um: "''Could not upload d/c: File does not exist'' \<in> set (thread_records ?e (0 + 1) 0 (?us ! 1 ! 0))"
    by code_simp
  have dm: "''Could not download a'' \<in> set (thread_records ?d (0 + 1) 0 (?ds ! 1 ! 0))"
    by code_simp
  have si: "str_ids listing" by code_simp
  have hu: "''x'' \<noteq> [] \<and> errors two_threads = []
       \<and> 1 < length (upload_batches ?s1 [''d/c'', ''a'', ''b''] (upload_path ''x'') True)
       \<and> quiet ?e ?s1 (take 1 (upload_batches ?s1 [''d/c'', ''a'', ''b''] (upload_path ''x'') True))
       \<and> 0 < length (upload_batches ?s1 [''d/c'', ''a'', ''b''] (upload_path ''x'') True ! 1)
       \<and> ''Could not upload d/c: File does not exist'' \<in> set (thread_records ?e (length (launched ?s1) + 1) 0
                     (upload_batches ?s1 [''d/c'', ''a'', ''b''] (upload_path ''x'') True ! 1 ! 0))"
    unfolding ub l0 using qu um by simp
  have hd: "FetchAllFiles ?d (strip_slashes ''remote'') ?s1 = Some (Inr (listing, []), ?s2) \<and> str_ids listing
       \<and> 1 < length (download_batches ?s2 ''out'' [] True listing)
       \<and> quiet ?d ?s2 (take 1 (download_batches ?s2 ''out'' [] True listing))
       \<and> 0 < length (download_batches ?s2 ''out'' [] True listing ! 1)
       \<and> ''Could not download a'' \<in> set (thread_records ?d (length (launched ?s2) + 1) 0
                     (download_batches ?s2 ''out'' [] True listing ! 1 ! 0))"
    unfolding db l0 using qd dm fa si by simp
  note u = transfer_fails_fast [OF p(1) cu, where path = "''x''" and fs = "[''d/c'', ''a'', ''b'']"
      and log = True and k = 1 and i = 0 and m = "''Could not upload d/c: File does not exist''",
      THEN conjunct1, THEN mp, OF hu]
  note d = transfer_fails_fast [OF p(2) cd, where po = "''remote''" and af = listing and fo = "[]"
      and ?s2.0 = ?s2 and pl = "''out''" and sf = "[]"
      and log = True and k = 1 and i = 0 and m = "''Could not download a''",
      THEN conjunct2, THEN mp, OF hd]
  have eu: "?s1\<lparr>launched := launched ?s1 @ take (Suc 1) ?us, errors := []\<rparr> = two_threads\<lparr>reads := 1, launched := ?us\<rparr>"
    by (simp add: two_threads_def init_def)
  have ed: "?s2\<lparr>launched := launched ?s2 @ take (Suc 1) ?ds, errors := []\<rparr> =
      two_threads\<lparr>sent := [Get ''u/me/drive/root:/remote:/children'' []], reads := 2, launched := ?ds\<rparr>"
    by (simp add: two_threads_def init_def)
  have 3: "sublist ''c'' ''Could not upload d/c: File does not exist''" by code_simp
  from u [THEN conjunct1] have 1: "\<exists>msg. Upload ?e [''d/c'', ''a'', ''b''] ''x'' True two_threads =
       Some (Inl (Exception (''Could not upload all files: '' @ msg)), two_threads\<lparr>reads := 1, launched := ?us\<rparr>)
       \<and> sublist ''Could not upload d/c: File does not exist'' msg"
    unfolding ub eu .
  from d [THEN conjunct1] have 2: "\<exists>msg. Download ?d ''remote'' ''out'' [] True two_threads =
       Some (Inl (Exception (''Could not download all files: '' @ msg)),
             two_threads\<lparr>sent := [Get ''u/me/drive/root:/remote:/children'' []], reads := 2, launched := ?ds\<rparr>)
       \<and> sublist ''Could not download a'' msg"
    unfolding db ed .
  from 1 2 3 show ?thesis by (intro conjI)
qed

text \<open>
  The claim C1 as stated fails for a download whose local write fails: the message
  names the local directory, not the file. It fails as well when an id of the listing is
  not a string: building the URL raises \<open>TypeError\<close> in the middle of the batch, the
  thread already started is not joined and its message stays in the log.
\<close>

theorem transfer_message_counterexample:
  "map_option fst (Download (files_env [found ''a.txt''] [] False (\<lambda>_ _. accepted)) ''remote'' ''out'' [] True two_threads) =
     Some (Inl (Exception ''Could not download all files: Could not write out to drive''))
   \<and> map_option (launched \<circ> snd)
       (Download (files_env [found ''a.txt''] [] False (\<lambda>_ _. accepted)) ''remote'' ''out'' [] True two_threads) =
     Some [[DownloadIntern ''out'' (PStr ''a.txt'') ''u/me/drive/items/7/content'' [] True]]
   \<and> \<not> sublist ''a.txt'' ''Could not download all files: Could not write out to drive''
   \<and> map_option fst (Download (files_env [numbered] [] True (\<lambda>_ _. denied)) ''remote'' ''out'' [] True two_threads) =
     Some (Inl (TypeError (''can only concatenate str (not '' @ [CHR 0x22] @ ''int'' @ [CHR 0x22] @ '') to str'')))
   \<and> map_option (errors \<circ> snd)
       (Download (files_env [numbered] [] True (\<lambda>_ _. denied)) ''remote'' ''out'' [] True two_threads) =
     Some [''Could not download c'']"
  by code_simp

end
